theory Spec2Isabelle
  imports Main "HOL-Library.AList" "HOL-Library.Multiset" "HOL-Library.Word"
begin

section \<open>Ollama-OCR: the OCR processor (src/ocr_processor.py)\<close>

text \<open>
  A shallow embedding of class \<open>OCRProcessor\<close>. Python strings are kept as their UTF-8
  bytes (\<open>string\<close> is a list of bytes), file contents are byte lists, a raised exception
  is the \<open>Inl\<close> of a sum, and every effect on the outside world (the file system, the
  requests posted to the inference endpoint, the names handed out by \<open>tempfile\<close>) is a
  field of an explicit \<open>world\<close> that each operation takes and returns. The libraries the
  code calls (OpenCV, pdf2image, requests, json, base64, pathlib) are not part of the
  repository: their operations are the fields of the record \<open>libs\<close>, so that every
  theorem holds whatever these operations compute.
\<close>

subsection \<open>Strings\<close>

type_synonym path = string
type_synonym bytes = string

text \<open>\<open>s.endswith(sfx)\<close>\<close>

definition endswith :: "string \<Rightarrow> string \<Rightarrow> bool" where
  "endswith s sfx = (length sfx \<le> length s \<and> drop (length s - length sfx) s = sfx)"

text \<open>
  \<open>s.lower()\<close>, on the ASCII letters. The source only compares the lowered path with the
  ASCII suffix \<open>.pdf\<close>; no character outside ASCII lowers to one of \<open>p\<close>, \<open>d\<close>, \<open>f\<close> or
  to the dot, and in UTF-8 every byte of such a character is above 127.
\<close>

definition lower_char :: "char \<Rightarrow> char" where
  "lower_char c = (let n = (of_char c :: nat) in if 65 \<le> n \<and> n \<le> 90 then char_of (n + 32) else c)"

definition lower :: "string \<Rightarrow> string" where
  "lower s = map lower_char s"

text \<open>\<open>str(n)\<close> for a natural number: its decimal digits.\<close>

fun str_nat :: "nat \<Rightarrow> string" where
  "str_nat n = (if n < 10 then [char_of (48 + n)] else str_nat (n div 10) @ [char_of (48 + n mod 10)])"

declare str_nat.simps [simp del]

text \<open>
  The message literals of the source, which are Chinese text, as their UTF-8 bytes:
  \<open>msg_cannot_read\<close> is the literal of line 44, \<open>msg_read_failed\<close> and \<open>msg_error_sep\<close>
  the two literal parts of line 47, \<open>msg_pdf_no_pages\<close> line 67,
  \<open>msg_preprocess_failed\<close> line 94 and \<open>msg_process_failed\<close> line 209.
\<close>

definition msg_cannot_read :: string where
  "msg_cannot_read = [CHR 0xE6, CHR 0x97, CHR 0xA0, CHR 0xE6, CHR 0xB3, CHR 0x95, CHR 0xE8, CHR 0xAF,
     CHR 0xBB, CHR 0xE5, CHR 0x8F, CHR 0x96, CHR 0xE5, CHR 0x9B, CHR 0xBE, CHR 0xE7, CHR 0x89, CHR 0x87,
     CHR 0xE6, CHR 0x96, CHR 0x87, CHR 0xE4, CHR 0xBB, CHR 0xB6, CHR 0x3A, CHR 0x20]"

definition msg_read_failed :: string where
  "msg_read_failed = [CHR 0xE8, CHR 0xAF, CHR 0xBB, CHR 0xE5, CHR 0x8F, CHR 0x96, CHR 0xE5, CHR 0x9B,
     CHR 0xBE, CHR 0xE7, CHR 0x89, CHR 0x87, CHR 0xE5, CHR 0xA4, CHR 0xB1, CHR 0xE8, CHR 0xB4, CHR 0xA5,
     CHR 0x3A, CHR 0x20]"

definition msg_error_sep :: string where
  "msg_error_sep = [CHR 0x2C, CHR 0x20, CHR 0xE9, CHR 0x94, CHR 0x99, CHR 0xE8, CHR 0xAF, CHR 0xAF,
     CHR 0x3A, CHR 0x20]"

definition msg_pdf_no_pages :: string where
  "msg_pdf_no_pages = [CHR 0xE6, CHR 0x97, CHR 0xA0, CHR 0xE6, CHR 0xB3, CHR 0x95, CHR 0xE5, CHR 0xB0,
     CHR 0x86, CHR 0x20, CHR 0x50, CHR 0x44, CHR 0x46, CHR 0x20, CHR 0xE8, CHR 0xBD, CHR 0xAC, CHR 0xE6,
     CHR 0x8D, CHR 0xA2, CHR 0xE4, CHR 0xB8, CHR 0xBA, CHR 0xE5, CHR 0x9B, CHR 0xBE, CHR 0xE7, CHR 0x89,
     CHR 0x87]"

definition msg_preprocess_failed :: string where
  "msg_preprocess_failed = [CHR 0xE9, CHR 0xA2, CHR 0x84, CHR 0xE5, CHR 0xA4, CHR 0x84, CHR 0xE7,
     CHR 0x90, CHR 0x86, CHR 0xE5, CHR 0x9B, CHR 0xBE, CHR 0xE7, CHR 0x89, CHR 0x87, CHR 0xE6, CHR 0x97,
     CHR 0xB6, CHR 0xE5, CHR 0x87, CHR 0xBA, CHR 0xE9, CHR 0x94, CHR 0x99, CHR 0x3A, CHR 0x20]"

definition msg_process_failed :: string where
  "msg_process_failed = [CHR 0xE5, CHR 0xA4, CHR 0x84, CHR 0xE7, CHR 0x90, CHR 0x86, CHR 0xE5, CHR 0x9B,
     CHR 0xBE, CHR 0xE7, CHR 0x89, CHR 0x87, CHR 0xE6, CHR 0x97, CHR 0xB6, CHR 0xE5, CHR 0x87, CHR 0xBA,
     CHR 0xE9, CHR 0x94, CHR 0x99, CHR 0x3A, CHR 0x20]"

subsection \<open>Exceptions and Python values\<close>

text \<open>
  The exceptions of class \<open>Exception\<close> that the pipeline can meet, each with its message.
  \<open>JSONDecodeError\<close> is the only class that a handler of the source singles out (line
  204); \<open>LibError\<close> stands for every other exception class a library raises
  (\<open>cv2.error\<close>, \<open>requests.ConnectionError\<close>, \<open>RecursionError\<close>, ...).
\<close>

datatype exn =
    ValueError string
  | RuntimeError string
  | OSError string
  | TypeError string
  | AttributeError string
  | HTTPError string
  | JSONDecodeError string
  | KeyError string
  | LibError string

text \<open>\<open>str(e)\<close>\<close>

fun str_exn :: "exn \<Rightarrow> string" where
  "str_exn (ValueError m) = m"
| "str_exn (RuntimeError m) = m"
| "str_exn (OSError m) = m"
| "str_exn (TypeError m) = m"
| "str_exn (AttributeError m) = m"
| "str_exn (HTTPError m) = m"
| "str_exn (JSONDecodeError m) = m"
| "str_exn (KeyError m) = m"
| "str_exn (LibError m) = m"

text \<open>
  The values that \<open>json.loads\<close> builds. A float is kept as the bit pattern of its IEEE
  double; no arithmetic on it is modelled. A \<open>dict\<close> is an association list.
\<close>

datatype json =
    JNull
  | JBool bool
  | JInt int
  | JFloat "64 word"
  | JStr string
  | JArr "json list"
  | JObj "(string \<times> json) list"

subsection \<open>The outside world\<close>

text \<open>The body of the request of line 186 and the reply of \<open>requests.post\<close>.\<close>

record payload =
  model :: string
  prompt :: string
  stream :: bool
  images :: "string list"

record reply =
  status_code :: nat
  reason :: string
  body :: string

text \<open>
  A directory tree, as \<open>pathlib\<close> walks it: a directory lists its entries by name; an entry
  is a subdirectory or any other kind of file.
\<close>

datatype node = File | Dir "(string \<times> node) list"

text \<open>
  The state of the world: \<open>files\<close> gives the bytes of each file that \<open>open\<close> can read,
  \<open>dir_at\<close> the entries of each path that is a directory, \<open>temp_supply\<close> the names that
  \<open>tempfile\<close> will try next (directory, prefix and random part, without the suffix), and
  \<open>sent\<close> the requests posted so far, with their URL.
\<close>

record world =
  files :: "path \<rightharpoonup> bytes"
  dir_at :: "path \<rightharpoonup> (string \<times> node) list"
  temp_supply :: "path list"
  sent :: "(string \<times> payload) list"

text \<open>
  The library operations, over any type \<open>'i\<close> of decoded images. Three fields are
  pathlib's: \<open>str_Path s\<close> is \<open>str(Path(s))\<close>, \<open>path_join base name\<close> is
  \<open>str(base / name)\<close> with the separator of the platform, and \<open>win_casefold\<close> is the
  folding of case under which the Windows flavour of pathlib compares a name with a
  pattern. The five \<open>template_\<close> fields are the instruction texts of lines 112 to 179,
  which are configuration (long Chinese-language literals) and stay abstract.
\<close>

record 'i libs =
  os_name :: string
  get_short_path_name :: "path \<Rightarrow> path"
  convert_from_path :: "(path \<rightharpoonup> bytes) \<Rightarrow> path \<Rightarrow> exn + 'i list"
  page_save_jpeg :: "'i \<Rightarrow> exn + bytes"
  imdecode :: "bytes \<Rightarrow> exn + 'i option"
  cvtColor_gray :: "'i \<Rightarrow> exn + 'i"
  clahe_apply :: "'i \<Rightarrow> exn + 'i"
  fastNlMeansDenoising :: "'i \<Rightarrow> exn + 'i"
  imwrite_jpg :: "'i \<Rightarrow> exn + bytes"
  b64encode :: "bytes \<Rightarrow> string"
  requests_post :: "string \<Rightarrow> payload \<Rightarrow> exn + reply"
  json_loads :: "string \<Rightarrow> exn + json"
  json_dumps_indent2 :: "json \<Rightarrow> string"
  str_Path :: "string \<Rightarrow> path"
  path_join :: "path \<Rightarrow> string \<Rightarrow> path"
  win_casefold :: "string \<Rightarrow> string"
  as_completed :: "(path \<times> (exn + json)) list \<Rightarrow> (path \<times> (exn + json)) list"
  template_markdown :: string
  template_text :: string
  template_json :: string
  template_structured :: string
  template_key_value :: string

text \<open>The fields of \<open>self\<close> (lines 16 to 19).\<close>

record processor =
  model_name :: string
  base_url :: string
  max_workers :: int

definition init :: "string \<Rightarrow> int \<Rightarrow> processor" where
  "init name workers =
     \<lparr>model_name = name, base_url = ''http://localhost:11434/api/generate'', max_workers = workers\<rparr>"

subsection \<open>File operations\<close>

text \<open>The message of the \<open>FileNotFoundError\<close> that \<open>open\<close> and \<open>os.remove\<close> raise.\<close>

definition no_such_file :: "path \<Rightarrow> exn" where
  "no_such_file p = OSError (''[Errno 2] No such file or directory: '' @ [CHR 0x27] @ p @ [CHR 0x27])"

text \<open>\<open>open(p, "rb").read()\<close>\<close>

definition read_bytes :: "world \<Rightarrow> path \<Rightarrow> exn + bytes" where
  "read_bytes w p = (case files w p of None \<Rightarrow> Inl (no_such_file p) | Some bs \<Rightarrow> Inr bs)"

text \<open>\<open>os.remove(p)\<close>\<close>

definition os_remove :: "world \<Rightarrow> path \<Rightarrow> world \<times> (exn + unit)" where
  "os_remove w p =
     (case files w p of
        None \<Rightarrow> (w, Inl (no_such_file p))
      | Some bs \<Rightarrow> (w\<lparr>files := (files w)(p := None)\<rparr>, Inr ()))"

text \<open>
  \<open>tempfile.NamedTemporaryFile(suffix=".jpg", delete=False)\<close>, closed at once by its
  \<open>with\<close> block: the first candidate name that no file has yet is created, empty, and
  stays on disk. With no candidate left the call raises.
\<close>

fun named_temporary_file :: "world \<Rightarrow> path list \<Rightarrow> world \<times> (exn + path)" where
  "named_temporary_file w [] =
     (w\<lparr>temp_supply := []\<rparr>, Inl (OSError ''[Errno 17] No usable temporary file name found''))"
| "named_temporary_file w (c # cs) =
     (let name = c @ ''.jpg'' in
      if files w name = None
      then (w\<lparr>files := (files w)(name \<mapsto> []), temp_supply := cs\<rparr>, Inr name)
      else named_temporary_file w cs)"

subsection \<open>Dictionaries\<close>

text \<open>\<open>d.get(k, default)\<close> and \<open>d[k]\<close>\<close>

definition dict_get :: "(string \<times> 'v) list \<Rightarrow> string \<Rightarrow> 'v \<Rightarrow> 'v" where
  "dict_get d k dflt = (case map_of d k of None \<Rightarrow> dflt | Some v \<Rightarrow> v)"

definition dict_item :: "(string \<times> 'v) list \<Rightarrow> string \<Rightarrow> exn + 'v" where
  "dict_item d k = (case map_of d k of None \<Rightarrow> Inl (KeyError k) | Some v \<Rightarrow> Inr v)"

subsection \<open>Reading and encoding an image (lines 21 to 52)\<close>

definition convert_to_short_path :: "'i libs \<Rightarrow> path \<Rightarrow> path" where
  "convert_to_short_path L long_path =
     (if os_name L = ''nt'' then get_short_path_name L long_path else long_path)"

text \<open>The \<open>try\<close> block of \<open>_read_image\<close>, then the function with its handler.\<close>

definition read_image_try :: "'i libs \<Rightarrow> world \<Rightarrow> path \<Rightarrow> exn + 'i" where
  "read_image_try L w image_path =
     (let safe_path = convert_to_short_path L image_path in
      case read_bytes w safe_path of
        Inl e \<Rightarrow> Inl e
      | Inr file_bytes \<Rightarrow>
          (case imdecode L file_bytes of
             Inl e \<Rightarrow> Inl e
           | Inr None \<Rightarrow> Inl (ValueError (msg_cannot_read @ image_path))
           | Inr (Some img) \<Rightarrow> Inr img))"

definition read_image :: "'i libs \<Rightarrow> world \<Rightarrow> path \<Rightarrow> exn + 'i" where
  "read_image L w image_path =
     (case read_image_try L w image_path of
        Inl e \<Rightarrow> Inl (RuntimeError (msg_read_failed @ image_path @ msg_error_sep @ str_exn e))
      | Inr img \<Rightarrow> Inr img)"

definition encode_image :: "'i libs \<Rightarrow> world \<Rightarrow> path \<Rightarrow> exn + string" where
  "encode_image L w image_path =
     (case read_bytes w image_path of
        Inl e \<Rightarrow> Inl e
      | Inr bs \<Rightarrow> Inr (b64encode L bs))"

subsection \<open>Preprocessing (lines 54 to 94)\<close>

text \<open>
  Lines 64 to 72: a path that ends in \<open>.pdf\<close> is rendered and its first page saved to a
  temporary file, which \<open>image_path\<close> names from then on. The result is the world, the
  binding of \<open>image_path\<close>, and whether the block raised.
\<close>

definition render_pdf :: "'i libs \<Rightarrow> world \<Rightarrow> path \<Rightarrow> world \<times> path \<times> (exn + unit)" where
  "render_pdf L w image_path =
     (if endswith (lower image_path) ''.pdf'' then
        (case convert_from_path L (files w) image_path of
           Inl e \<Rightarrow> (w, image_path, Inl e)
         | Inr [] \<Rightarrow> (w, image_path, Inl (ValueError msg_pdf_no_pages))
         | Inr (page # _) \<Rightarrow>
             (case named_temporary_file w (temp_supply w) of
                (w1, Inl e) \<Rightarrow> (w1, image_path, Inl e)
              | (w1, Inr temp_path) \<Rightarrow>
                  (case page_save_jpeg L page of
                     Inl e \<Rightarrow> (w1, image_path, Inl e)
                   | Inr bs \<Rightarrow> (w1\<lparr>files := (files w1)(temp_path \<mapsto> bs)\<rparr>, temp_path, Inr ()))))
      else (w, image_path, Inr ()))"

text \<open>Lines 78 to 85: grayscale, CLAHE (clip limit 2.0, tiles 8 by 8), denoising.\<close>

definition enhance :: "'i libs \<Rightarrow> 'i \<Rightarrow> exn + 'i" where
  "enhance L img =
     (case cvtColor_gray L img of
        Inl e \<Rightarrow> Inl e
      | Inr gray \<Rightarrow>
          (case clahe_apply L gray of
             Inl e \<Rightarrow> Inl e
           | Inr enhanced \<Rightarrow> fastNlMeansDenoising L enhanced))"

text \<open>The \<open>try\<close> block of \<open>_preprocess_image\<close>, with the binding of \<open>image_path\<close> it ends with.\<close>

definition preprocess_image_try :: "'i libs \<Rightarrow> world \<Rightarrow> path \<Rightarrow> world \<times> path \<times> (exn + path)" where
  "preprocess_image_try L w image_path0 =
     (case render_pdf L w image_path0 of
        (w1, image_path, Inl e) \<Rightarrow> (w1, image_path, Inl e)
      | (w1, image_path, Inr _) \<Rightarrow>
          (case read_image L w1 image_path of
             Inl e \<Rightarrow> (w1, image_path, Inl e)
           | Inr img \<Rightarrow>
               (case enhance L img of
                  Inl e \<Rightarrow> (w1, image_path, Inl e)
                | Inr denoised \<Rightarrow>
                    (case named_temporary_file w1 (temp_supply w1) of
                       (w2, Inl e) \<Rightarrow> (w2, image_path, Inl e)
                     | (w2, Inr preprocessed_path) \<Rightarrow>
                         (case imwrite_jpg L denoised of
                            Inl e \<Rightarrow> (w2, image_path, Inl e)
                          | Inr bs \<Rightarrow>
                              (w2\<lparr>files := (files w2)(preprocessed_path \<mapsto> bs)\<rparr>,
                               image_path, Inr preprocessed_path))))))"

definition preprocess_image :: "'i libs \<Rightarrow> world \<Rightarrow> path \<Rightarrow> world \<times> (exn + path)" where
  "preprocess_image L w image_path0 =
     (case preprocess_image_try L w image_path0 of
        (w', image_path, Inl e) \<Rightarrow>
          (w', Inl (RuntimeError (msg_preprocess_failed @ image_path @ msg_error_sep @ str_exn e)))
      | (w', image_path, Inr preprocessed_path) \<Rightarrow> (w', Inr preprocessed_path))"

subsection \<open>Processing one image (lines 96 to 209)\<close>

text \<open>The dictionary of lines 111 to 180.\<close>

definition prompts :: "'i libs \<Rightarrow> (string \<times> string) list" where
  "prompts L =
     [(''markdown'', template_markdown L),
      (''text'', template_text L),
      (''json'', template_json L),
      (''structured'', template_structured L),
      (''key_value'', template_key_value L)]"

text \<open>
  \<open>response.raise_for_status()\<close> of the requests library: a status from 400 to 599
  raises \<open>HTTPError\<close>.
\<close>

definition raise_for_status :: "string \<Rightarrow> reply \<Rightarrow> exn + unit" where
  "raise_for_status url r =
     (if 400 \<le> status_code r \<and> status_code r < 500
      then Inl (HTTPError (str_nat (status_code r) @ '' Client Error: '' @ reason r @ '' for url: '' @ url))
      else if 500 \<le> status_code r \<and> status_code r < 600
      then Inl (HTTPError (str_nat (status_code r) @ '' Server Error: '' @ reason r @ '' for url: '' @ url))
      else Inr ())"

text \<open>Line 197: \<open>response.json().get("response", "")\<close>\<close>

definition reply_response :: "'i libs \<Rightarrow> reply \<Rightarrow> exn + json" where
  "reply_response L r =
     (case json_loads L (body r) of
        Inl e \<Rightarrow> Inl e
      | Inr (JObj kvs) \<Rightarrow> Inr (dict_get kvs ''response'' (JStr []))
      | Inr _ \<Rightarrow> Inl (AttributeError ''object has no attribute get''))"

text \<open>
  Lines 200 to 207. \<open>json.loads\<close> raises \<open>TypeError\<close> on a value that is not text; only
  \<open>JSONDecodeError\<close> is handled here.
\<close>

definition postprocess :: "'i libs \<Rightarrow> string \<Rightarrow> json \<Rightarrow> exn + json" where
  "postprocess L format_type result =
     (if format_type = ''json'' then
        (case result of
           JStr s \<Rightarrow>
             (case json_loads L s of
                Inr json_data \<Rightarrow> Inr (JStr (json_dumps_indent2 L json_data))
              | Inl (JSONDecodeError m) \<Rightarrow> Inr result
              | Inl e \<Rightarrow> Inl e)
         | _ \<Rightarrow> Inl (TypeError ''the JSON object must be str, bytes or bytearray''))
      else Inr result)"

text \<open>Lines 183 to 191: the request that is posted for an encoded image.\<close>

definition build_payload :: "'i libs \<Rightarrow> processor \<Rightarrow> string \<Rightarrow> string \<Rightarrow> exn + payload" where
  "build_payload L self format_type image_base64 =
     (case dict_item (prompts L) ''text'' of
        Inl e \<Rightarrow> Inl e
      | Inr fallback \<Rightarrow>
          Inr \<lparr>model = model_name self,
               prompt = dict_get (prompts L) format_type fallback,
               stream = False,
               images = [image_base64]\<rparr>)"

text \<open>Lines 194 to 197: post, check the status, read the \<open>response\<close> field of the reply.\<close>

definition infer :: "'i libs \<Rightarrow> processor \<Rightarrow> world \<Rightarrow> payload \<Rightarrow> world \<times> (exn + json)" where
  "infer L self w pl =
     (let w' = w\<lparr>sent := sent w @ [(base_url self, pl)]\<rparr> in
      case requests_post L (base_url self) pl of
        Inl e \<Rightarrow> (w', Inl e)
      | Inr response \<Rightarrow>
          (case raise_for_status (base_url self) response of
             Inl e \<Rightarrow> (w', Inl e)
           | Inr _ \<Rightarrow> (w', reply_response L response)))"

text \<open>Lines 106 to 108: the clean-up of the temporary file, by the suffix of its name.\<close>

definition cleanup :: "world \<Rightarrow> path \<Rightarrow> world \<times> (exn + unit)" where
  "cleanup w image_path =
     (if endswith image_path ''_preprocessed.jpg'' \<or> endswith image_path ''_temp.jpg''
      then os_remove w image_path
      else (w, Inr ()))"

text \<open>
  The \<open>try\<close> block of \<open>process_image\<close>, in two parts: \<open>fetch_result\<close> is lines 101 to
  197, which end with the binding of \<open>result\<close>; the post-processing follows.
\<close>

definition fetch_result ::
  "'i libs \<Rightarrow> processor \<Rightarrow> world \<Rightarrow> path \<Rightarrow> string \<Rightarrow> bool \<Rightarrow> world \<times> (exn + json)" where
  "fetch_result L self w image_path0 format_type preprocess =
     (case (if preprocess then preprocess_image L w image_path0 else (w, Inr image_path0)) of
        (w1, Inl e) \<Rightarrow> (w1, Inl e)
      | (w1, Inr image_path) \<Rightarrow>
          (case encode_image L w1 image_path of
             Inl e \<Rightarrow> (w1, Inl e)
           | Inr image_base64 \<Rightarrow>
               (case cleanup w1 image_path of
                  (w2, Inl e) \<Rightarrow> (w2, Inl e)
                | (w2, Inr _) \<Rightarrow>
                    (case build_payload L self format_type image_base64 of
                       Inl e \<Rightarrow> (w2, Inl e)
                     | Inr pl \<Rightarrow> infer L self w2 pl))))"

definition process_image_try ::
  "'i libs \<Rightarrow> processor \<Rightarrow> world \<Rightarrow> path \<Rightarrow> string \<Rightarrow> bool \<Rightarrow> world \<times> (exn + json)" where
  "process_image_try L self w image_path format_type preprocess =
     (case fetch_result L self w image_path format_type preprocess of
        (w', Inl e) \<Rightarrow> (w', Inl e)
      | (w', Inr result) \<Rightarrow> (w', postprocess L format_type result))"

text \<open>
  \<open>process_image\<close>: the block under its handler \<open>except Exception\<close> (lines 208 and 209).
  The result is a sum as well, so that "the call does not raise" is a statement about
  the function and not a consequence of its type.
\<close>

definition process_image ::
  "'i libs \<Rightarrow> processor \<Rightarrow> world \<Rightarrow> path \<Rightarrow> string \<Rightarrow> bool \<Rightarrow> world \<times> (exn + json)" where
  "process_image L self w image_path format_type preprocess =
     (case process_image_try L self w image_path format_type preprocess of
        (w', Inl e) \<Rightarrow> (w', Inr (JStr (msg_process_failed @ str_exn e)))
      | (w', Inr result) \<Rightarrow> (w', Inr result))"

subsection \<open>Path discovery (lines 221 to 232)\<close>

text \<open>
  \<open>Path.glob\<close> of pathlib, which is not part of the repository, as its documentation
  describes it: the pattern is split at the slashes; a component \<open>**\<close> stands for the
  directory itself and every directory below it; any other component is matched against
  the names of the entries of a directory, of any kind and hidden or not, with \<open>*\<close> for
  any run of characters (the rest of the pattern has to match some tail of the name)
  and \<open>?\<close> for any one character (the bracket classes of
  \<open>fnmatch\<close>, which no pattern of the source contains, are left out). The flavour of
  pathlib follows \<open>os.name\<close>: on POSIX a name is compared with the pattern as it is;
  on Windows (\<open>os.name\<close> is \<open>nt\<close>) case is ignored, which is to compare the folded
  pattern with the folded name. The path of an entry is \<open>str(base / name)\<close>.
\<close>

fun tails :: "string \<Rightarrow> string list" where
  "tails [] = [[]]"
| "tails (c # cs) = (c # cs) # tails cs"

fun fnmatch :: "string \<Rightarrow> string \<Rightarrow> bool" where
  "fnmatch [] name = (name = [])"
| "fnmatch (c # pat) name =
     (if c = CHR ''*'' then
        list_ex (fnmatch pat) (tails name)
      else if c = CHR ''?'' then
        (case name of [] \<Rightarrow> False | _ # rest \<Rightarrow> fnmatch pat rest)
      else
        (case name of [] \<Rightarrow> False | d # rest \<Rightarrow> c = d \<and> fnmatch pat rest))"

fun split_slash :: "string \<Rightarrow> string list" where
  "split_slash [] = [[]]"
| "split_slash (c # cs) =
     (if c = CHR ''/'' then [] # split_slash cs
      else (case split_slash cs of [] \<Rightarrow> [[c]] | part # parts \<Rightarrow> (c # part) # parts))"

definition glob_fold :: "'i libs \<Rightarrow> string \<Rightarrow> string" where
  "glob_fold L s = (if os_name L = ''nt'' then win_casefold L s else s)"

definition name_matches :: "'i libs \<Rightarrow> string \<Rightarrow> string \<Rightarrow> bool" where
  "name_matches L pat name = fnmatch (glob_fold L pat) (glob_fold L name)"

function (sequential) glob_parts :: "'i libs \<Rightarrow> string list \<Rightarrow> path \<Rightarrow> node \<Rightarrow> path list" where
  "glob_parts L [] p n = [p]"
| "glob_parts L (c # cs) p File = []"
| "glob_parts L (c # cs) p (Dir es) =
     (if c = ''**'' then
        glob_parts L cs p (Dir es) @
        concat (map (\<lambda>e. glob_parts L (c # cs) (path_join L p (fst e)) (snd e)) es)
      else
        concat (map (\<lambda>e. if name_matches L c (fst e)
                          then glob_parts L cs (path_join L p (fst e)) (snd e) else []) es))"
  by pat_completeness auto
termination
proof -
  have smaller: "size (snd e) < size (Dir es)" if "e \<in> set es" for e :: "string \<times> node" and es
    using that by (induction es) auto
  show ?thesis
    by (relation "measures [\<lambda>(L, cs, p, n). size n, \<lambda>(L, cs, p, n). length cs]")
       (auto dest: smaller)
qed

definition glob :: "'i libs \<Rightarrow> path \<Rightarrow> node \<Rightarrow> string \<Rightarrow> path list" where
  "glob L base n pattern = glob_parts L (split_slash pattern) base n"

text \<open>The argument \<open>input_path\<close>, of type \<open>Union[str, List[str]]\<close>.\<close>

datatype batch_input = SinglePath string | PathList "string list"

definition extensions :: "string list" where
  "extensions = [''.png'', ''.jpg'', ''.jpeg'', ''.pdf'', ''.tiff'']"

text \<open>
  Lines 222 to 232. The paths are kept in their string form, which is all that the rest
  of \<open>process_batch\<close> uses of them. \<open>is_dir\<close> and \<open>glob\<close> are taken to answer: an
  error of the operating system at this point (a name too long, a directory that may
  not be read) is not modelled.
\<close>

definition discover :: "'i libs \<Rightarrow> world \<Rightarrow> batch_input \<Rightarrow> bool \<Rightarrow> path list" where
  "discover L w input_path recursive =
     (case input_path of
        SinglePath s \<Rightarrow>
          (let base_path = str_Path L s in
           case dir_at w base_path of
             Some es \<Rightarrow>
               (let pattern = (if recursive then ''**/*'' else ''*'') in
                concat (map (\<lambda>ext. glob L base_path (Dir es) (pattern @ ext)) extensions))
           | None \<Rightarrow> [base_path])
      | PathList ps \<Rightarrow> map (str_Path L) ps)"

text \<open>
  What the claims say of discovery, in their own words: \<open>entry_at n names\<close> holds when
  following \<open>names\<close> from the directory \<open>n\<close> downwards leads to an entry.
\<close>

fun entry_at :: "node \<Rightarrow> string list \<Rightarrow> bool" where
  "entry_at n [] = True"
| "entry_at File (c # cs) = False"
| "entry_at (Dir es) (c # cs) = list_ex (\<lambda>e. fst e = c \<and> entry_at (snd e) cs) es"

text \<open>A suffix with no wildcard and no slash in it, as the five extensions are.\<close>

definition plain_suffix :: "string \<Rightarrow> bool" where
  "plain_suffix ext \<longleftrightarrow> CHR ''*'' \<notin> set ext \<and> CHR ''?'' \<notin> set ext \<and> CHR ''/'' \<notin> set ext"

subsection \<open>The batch (lines 211 to 261)\<close>

text \<open>
  The tasks submitted at lines 240 to 243, run one after the other in the order of
  submission, as the single worker of the default \<open>max_workers = 1\<close> runs them. Each
  task is one call of \<open>process_image\<close>; its outcome is what \<open>future.result()\<close> gives
  back or raises.
\<close>

fun run_tasks ::
  "'i libs \<Rightarrow> processor \<Rightarrow> world \<Rightarrow> path list \<Rightarrow> string \<Rightarrow> bool \<Rightarrow> world \<times> (exn + json) list" where
  "run_tasks L self w [] format_type preprocess = (w, [])"
| "run_tasks L self w (p # ps) format_type preprocess =
     (case process_image L self w p format_type preprocess of
        (w1, r) \<Rightarrow>
          (case run_tasks L self w1 ps format_type preprocess of
             (w2, rs) \<Rightarrow> (w2, r # rs)))"

text \<open>
  The loop of lines 245 to 251 over the completed futures, each with its path. The two
  dictionaries are association lists in insertion order; \<open>AList.update\<close> is the
  assignment \<open>d[k] = v\<close>.
\<close>

fun collect ::
  "(path \<times> (exn + json)) list \<Rightarrow> (path \<times> json) list \<Rightarrow> (path \<times> string) list
     \<Rightarrow> (path \<times> json) list \<times> (path \<times> string) list" where
  "collect [] res errs = (res, errs)"
| "collect ((p, Inr v) # rest) res errs = collect rest (AList.update p v res) errs"
| "collect ((p, Inl e) # rest) res errs = collect rest res (AList.update p (str_exn e) errs)"

record statistics =
  total :: nat
  successful :: nat
  failed :: nat

record batch_report =
  results :: "(path \<times> json) list"
  errors :: "(path \<times> string) list"
  statistics :: statistics

text \<open>
  \<open>process_batch\<close>. \<open>ThreadPoolExecutor\<close> raises \<open>ValueError\<close> for a number of workers
  that is not positive; nothing handles it. The field \<open>as_completed\<close> of \<open>libs\<close> is the
  order in which the futures complete.
\<close>

definition process_batch ::
  "'i libs \<Rightarrow> processor \<Rightarrow> world \<Rightarrow> batch_input \<Rightarrow> string \<Rightarrow> bool \<Rightarrow> bool
     \<Rightarrow> world \<times> (exn + batch_report)" where
  "process_batch L self w input_path format_type recursive preprocess =
     (let image_paths = discover L w input_path recursive in
      if max_workers self \<le> 0
      then (w, Inl (ValueError ''max_workers must be greater than 0''))
      else
        (case run_tasks L self w image_paths format_type preprocess of
           (w', outcomes) \<Rightarrow>
             (case collect (as_completed L (zip image_paths outcomes)) [] [] of
                (res, errs) \<Rightarrow>
                  (w', Inr \<lparr>results = res, errors = errs,
                            statistics = \<lparr>total = length image_paths,
                                           successful = length res,
                                           failed = length errs\<rparr>\<rparr>))))"

subsection \<open>Assumptions on the libraries\<close>

text \<open>
  The reply of the endpoint, as section 6 of the specification describes it: a reply
  that parses to a JSON object carries text in its \<open>response\<close> field, if it has one.
\<close>

definition text_replies :: "'i libs \<Rightarrow> bool" where
  "text_replies L =
     (\<forall>url pl r kvs v.
        requests_post L url pl = Inr r \<and> json_loads L (body r) = Inr (JObj kvs)
          \<and> map_of kvs ''response'' = Some v
        \<longrightarrow> (\<exists>s. v = JStr s))"

text \<open>\<open>as_completed\<close> yields every future once, in some order.\<close>

definition completes_each_once :: "'i libs \<Rightarrow> bool" where
  "completes_each_once L = (\<forall>xs. mset (as_completed L xs) = mset xs)"

text \<open>
  The folding of case of the Windows flavour leaves the patterns of the source, which
  are lower-case ASCII, as they are.
\<close>

definition folds_keep_patterns :: "'i libs \<Rightarrow> bool" where
  "folds_keep_patterns L = (\<forall>ext \<in> set extensions. win_casefold L (''*'' @ ext) = ''*'' @ ext)"

subsection \<open>A concrete world, for the examples\<close>

text \<open>
  Library operations simple enough to compute with: an image is its bytes, every OpenCV
  step succeeds and changes nothing, and the endpoint answers every request with the
  same body.
\<close>

definition demo_reply_body :: string where
  \<open>demo_reply_body = ''{"response": "[1]"}''\<close>

definition demo_plain_body :: string where
  \<open>demo_plain_body = ''{"response": "hello"}''\<close>




definition demo_json_loads :: "string \<Rightarrow> exn + json" where
  "demo_json_loads s =
     (if s = demo_reply_body then Inr (JObj [(''response'', JStr ''[1]'')])
      else if s = demo_plain_body then Inr (JObj [(''response'', JStr ''hello'')])
      else if s = ''[1]'' then Inr (JArr [JInt 1])
      else if s = ''[\<newline>  1\<newline>]'' then Inr (JArr [JInt 1])
      else Inl (JSONDecodeError ''Expecting value: line 1 column 1 (char 0)''))"


text \<open>
  pathlib on the paths of the examples: \<open>str(Path(s))\<close> drops a leading \<open>./\<close>; the
  POSIX flavour joins with a slash, the Windows flavour with a backslash.
\<close>

definition demo_str_Path :: "string \<Rightarrow> path" where
  "demo_str_Path s = (if take 2 s = ''./'' \<and> 2 < length s then drop 2 s else s)"

definition posix_join :: "path \<Rightarrow> string \<Rightarrow> path" where
  "posix_join base name =
     (if base = ''.'' then name
      else if endswith base ''/'' then base @ name
      else base @ ''/'' @ name)"

definition backslash :: string where
  "backslash = [CHR 0x5C]"

definition nt_join :: "path \<Rightarrow> string \<Rightarrow> path" where
  "nt_join base name =
     (if base = ''.'' then name
      else if endswith base backslash \<or> endswith base '':'' then base @ name
      else base @ backslash @ name)"

definition demo_json_dumps :: "json \<Rightarrow> string" where
  "demo_json_dumps v = (if v = JArr [JInt 1] then ''[\<newline>  1\<newline>]'' else ''null'')"

definition demo_libs :: "bytes libs" where
  "demo_libs =
     \<lparr>os_name = ''posix'',
      get_short_path_name = (\<lambda>p. p),
      convert_from_path =
        (\<lambda>fs p. case fs p of
                   None \<Rightarrow> Inl (LibError ''Unable to get page count.'')
                 | Some bs \<Rightarrow> if bs = [] then Inl (LibError ''Unable to get page count.'') else Inr [bs]),
      page_save_jpeg = Inr,
      imdecode = (\<lambda>bs. Inr (if bs = [] then None else Some bs)),
      cvtColor_gray = Inr,
      clahe_apply = Inr,
      fastNlMeansDenoising = Inr,
      imwrite_jpg = Inr,
      b64encode = (\<lambda>bs. bs),
      requests_post = (\<lambda>url pl. Inr \<lparr>status_code = 200, reason = ''OK'', body = demo_reply_body\<rparr>),
      json_loads = demo_json_loads,
      json_dumps_indent2 = demo_json_dumps,
      str_Path = demo_str_Path,
      path_join = posix_join,
      win_casefold = lower,
      as_completed = rev,
      template_markdown = ''markdown template'',
      template_text = ''text template'',
      template_json = ''json template'',
      template_structured = ''structured template'',
      template_key_value = ''key_value template''\<rparr>"

text \<open>The same, with an endpoint that answers every request with status 500.\<close>

definition demo_libs_500 :: "bytes libs" where
  "demo_libs_500 =
     demo_libs\<lparr>requests_post :=
       (\<lambda>url pl. Inr \<lparr>status_code = 500, reason = ''Internal Server Error'', body = []\<rparr>)\<rparr>"



text \<open>The same, on Windows.\<close>

definition demo_libs_nt :: "bytes libs" where
  "demo_libs_nt = demo_libs\<lparr>os_name := ''nt'', path_join := nt_join\<rparr>"

definition demo_self :: processor where
  "demo_self = init ''llama3.2-vision:11b'' 1"

definition demo_tree :: "(string \<times> node) list" where
  "demo_tree =
     [(''a.png'', File), (''notes.txt'', File), (''B.PNG'', File),
      (''album.jpg'', Dir [(''cover.png'', File)]),
      (''sub'', Dir [(''c.jpeg'', File), (''d.pdf'', File), (''e.tiff.bak'', File)])]"

definition demo_world :: world where
  "demo_world =
     \<lparr>files = [''scan.png'' \<mapsto> ''PNG'', ''doc.pdf'' \<mapsto> ''PDF''],
      dir_at = [''scans'' \<mapsto> demo_tree],
      temp_supply = [''/tmp/tmpk3x9q2ab'', ''/tmp/tmp0f_7hw1z''],
      sent = []\<rparr>"

section \<open>Properties\<close>

subsection \<open>One image: the handler of \<open>process_image\<close>\<close>

lemma process_image_returns:
  "\<exists>v. snd (process_image L self w p fmt pre) = Inr v"
  by (simp add: process_image_def split: prod.splits sum.splits)

lemma process_image_catches:
  "snd (process_image_try L self w p fmt pre) = Inl e \<Longrightarrow>
   snd (process_image L self w p fmt pre) = Inr (JStr (msg_process_failed @ str_exn e))"
  by (auto simp: process_image_def split: prod.splits sum.splits)

lemma process_image_passes:
  "snd (process_image_try L self w p fmt pre) = Inr v \<Longrightarrow>
   snd (process_image L self w p fmt pre) = Inr v"
  by (auto simp: process_image_def split: prod.splits sum.splits)

lemma process_image_try_raises_fetch:
  "snd (fetch_result L self w p fmt pre) = Inl e \<Longrightarrow>
   snd (process_image_try L self w p fmt pre) = Inl e"
  by (auto simp: process_image_try_def split: prod.splits sum.splits)

lemma fetch_result_raises_preprocess:
  "snd (preprocess_image L w p) = Inl e \<Longrightarrow> snd (fetch_result L self w p fmt True) = Inl e"
  by (auto simp: fetch_result_def split: prod.splits sum.splits)

lemma fetch_result_raises_encode:
  "encode_image L w p = Inl e \<Longrightarrow> snd (fetch_result L self w p fmt False) = Inl e"
  by (auto simp: fetch_result_def split: prod.splits sum.splits)

lemma reply_response_text:
  assumes "text_replies L" "requests_post L url pl = Inr r" "reply_response L r = Inr v"
  shows "\<exists>s. v = JStr s"
  using assms unfolding text_replies_def reply_response_def dict_get_def
  by (fastforce split: sum.splits json.splits option.splits)

lemma infer_text:
  assumes "text_replies L" "snd (infer L self w pl) = Inr v"
  shows "\<exists>s. v = JStr s"
  using assms reply_response_text[OF assms(1)]
  unfolding infer_def Let_def
  by (auto split: sum.splits)

lemma fetch_result_text:
  assumes "text_replies L" "snd (fetch_result L self w p fmt pre) = Inr v"
  shows "\<exists>s. v = JStr s"
  using assms(2) infer_text[OF assms(1)]
  unfolding fetch_result_def
  by (auto split: sum.splits prod.splits if_splits)

lemma postprocess_text:
  "postprocess L fmt (JStr s) = Inr v \<Longrightarrow> \<exists>t. v = JStr t"
  unfolding postprocess_def
  by (auto split: sum.splits exn.splits if_splits)

lemma process_image_try_text:
  assumes "text_replies L" "snd (process_image_try L self w p fmt pre) = Inr v"
  shows "\<exists>s. v = JStr s"
proof -
  obtain w' r where fr: "fetch_result L self w p fmt pre = (w', r)"
    by (cases "fetch_result L self w p fmt pre")
  with assms(2) obtain res where r: "r = Inr res" and pp: "postprocess L fmt res = Inr v"
    by (auto simp: process_image_try_def split: sum.splits)
  from fr r have "snd (fetch_result L self w p fmt pre) = Inr res" by simp
  from fetch_result_text[OF assms(1) this] obtain s where "res = JStr s" ..
  with pp show ?thesis by (auto dest: postprocess_text)
qed

lemma demo_text_replies: "text_replies demo_libs"
  by (auto simp: text_replies_def demo_libs_def demo_json_loads_def demo_reply_body_def
           demo_plain_body_def split: if_splits)

text \<open>
  Claim C3. For every path, format and preprocess flag, and in every world,
  \<open>process_image\<close> does not raise: it returns a value. Whatever exception the \<open>try\<close>
  block ends with, at whichever stage, the value returned is the failure text of line
  209 followed by the message of the exception; in particular an exception of the
  preprocessing (reading, rendering, enhancing) and one of the encoding. The value
  returned is a string whenever the endpoint keeps to its interface, that is, whenever
  the \<open>response\<close> field of its replies is text.
\<close>

theorem process_image_never_raises:
  "(\<exists>v. snd (process_image L self w p fmt pre) = Inr v) \<and>
   (\<forall>e. snd (process_image_try L self w p fmt pre) = Inl e \<longrightarrow>
        snd (process_image L self w p fmt pre) = Inr (JStr (msg_process_failed @ str_exn e))) \<and>
   (\<forall>e. snd (preprocess_image L w p) = Inl e \<longrightarrow>
        snd (process_image L self w p fmt True) = Inr (JStr (msg_process_failed @ str_exn e))) \<and>
   (\<forall>e. encode_image L w p = Inl e \<longrightarrow>
        snd (process_image L self w p fmt False) = Inr (JStr (msg_process_failed @ str_exn e))) \<and>
   (text_replies L \<longrightarrow> (\<exists>s. snd (process_image L self w p fmt pre) = Inr (JStr s)))"
proof (intro conjI allI impI)
  show "\<exists>v. snd (process_image L self w p fmt pre) = Inr v"
    by (rule process_image_returns)
next
  fix e assume "snd (process_image_try L self w p fmt pre) = Inl e"
  then show "snd (process_image L self w p fmt pre) = Inr (JStr (msg_process_failed @ str_exn e))"
    by (rule process_image_catches)
next
  fix e assume "snd (preprocess_image L w p) = Inl e"
  then have "snd (process_image_try L self w p fmt True) = Inl e"
    by (intro process_image_try_raises_fetch fetch_result_raises_preprocess)
  then show "snd (process_image L self w p fmt True) = Inr (JStr (msg_process_failed @ str_exn e))"
    by (rule process_image_catches)
next
  fix e assume "encode_image L w p = Inl e"
  then have "snd (process_image_try L self w p fmt False) = Inl e"
    by (intro process_image_try_raises_fetch fetch_result_raises_encode)
  then show "snd (process_image L self w p fmt False) = Inr (JStr (msg_process_failed @ str_exn e))"
    by (rule process_image_catches)
next
  assume tr: "text_replies L"
  show "\<exists>s. snd (process_image L self w p fmt pre) = Inr (JStr s)"
  proof (cases "snd (process_image_try L self w p fmt pre)")
    case (Inl e)
    then show ?thesis by (auto dest: process_image_catches)
  next
    case (Inr v)
    with process_image_try_text[OF tr Inr] show ?thesis
      by (auto dest: process_image_passes)
  qed
qed

text \<open>
  The theorem at a file that does not exist: reading it raises inside the
  preprocessing, and the call returns the failure text.
\<close>

theorem process_image_never_raises_witness:
  "snd (preprocess_image demo_libs demo_world ''nothere.png'')
     = Inl (RuntimeError (msg_preprocess_failed @ ''nothere.png'' @ msg_error_sep @
            msg_read_failed @ ''nothere.png'' @ msg_error_sep @ str_exn (no_such_file ''nothere.png''))) \<and>
   snd (process_image_try demo_libs demo_self demo_world ''nothere.png'' ''text'' True)
     = Inl (RuntimeError (msg_preprocess_failed @ ''nothere.png'' @ msg_error_sep @
            msg_read_failed @ ''nothere.png'' @ msg_error_sep @ str_exn (no_such_file ''nothere.png''))) \<and>
   encode_image demo_libs demo_world ''nothere.png'' = Inl (no_such_file ''nothere.png'') \<and>
   text_replies demo_libs \<and>
   snd (process_image demo_libs demo_self demo_world ''nothere.png'' ''text'' True)
     = Inr (JStr (msg_process_failed @ msg_preprocess_failed @ ''nothere.png'' @ msg_error_sep @
            msg_read_failed @ ''nothere.png'' @ msg_error_sep @ str_exn (no_such_file ''nothere.png''))) \<and>
   snd (process_image demo_libs demo_self demo_world ''nothere.png'' ''text'' False)
     = Inr (JStr (msg_process_failed @ str_exn (no_such_file ''nothere.png'')))"
proof -
  have pre: "snd (preprocess_image demo_libs demo_world ''nothere.png'')
     = Inl (RuntimeError (msg_preprocess_failed @ ''nothere.png'' @ msg_error_sep @
            msg_read_failed @ ''nothere.png'' @ msg_error_sep @ str_exn (no_such_file ''nothere.png'')))"
    by code_simp
  have blk: "snd (process_image_try demo_libs demo_self demo_world ''nothere.png'' ''text'' True)
     = Inl (RuntimeError (msg_preprocess_failed @ ''nothere.png'' @ msg_error_sep @
            msg_read_failed @ ''nothere.png'' @ msg_error_sep @ str_exn (no_such_file ''nothere.png'')))"
    by code_simp
  have enc: "encode_image demo_libs demo_world ''nothere.png'' = Inl (no_such_file ''nothere.png'')"
    by code_simp
  note thm1 = process_image_never_raises [of demo_libs demo_self demo_world "''nothere.png''" "''text''" True]
  note thm2 = process_image_never_raises [of demo_libs demo_self demo_world "''nothere.png''" "''text''" False]
  from thm1 blk have r1: "snd (process_image demo_libs demo_self demo_world ''nothere.png'' ''text'' True)
     = Inr (JStr (msg_process_failed @ str_exn (RuntimeError (msg_preprocess_failed @ ''nothere.png'' @ msg_error_sep @
            msg_read_failed @ ''nothere.png'' @ msg_error_sep @ str_exn (no_such_file ''nothere.png'')))))"
    by blast
  from thm2 enc have r2: "snd (process_image demo_libs demo_self demo_world ''nothere.png'' ''text'' False)
     = Inr (JStr (msg_process_failed @ str_exn (no_such_file ''nothere.png'')))"
    by blast
  from pre blk enc demo_text_replies r1 r2 show ?thesis by simp
qed

subsection \<open>One image: the JSON format\<close>












subsection \<open>One image: the instruction template\<close>

lemma build_payload_eq:
  "build_payload L self fmt b64 =
     Inr \<lparr>model = model_name self, prompt = dict_get (prompts L) fmt (template_text L),
          stream = False, images = [b64]\<rparr>"
  by (simp add: build_payload_def dict_item_def prompts_def)

lemma unknown_prompt:
  "fmt \<notin> {''markdown'', ''text'', ''json'', ''structured'', ''key_value''} \<Longrightarrow>
   dict_get (prompts L) fmt dflt = dflt"
  by (simp add: dict_get_def prompts_def)

lemma text_prompt: "dict_get (prompts L) ''text'' dflt = template_text L"
  by (simp add: dict_get_def prompts_def)

lemma build_payload_unknown:
  "fmt \<notin> {''markdown'', ''text'', ''json'', ''structured'', ''key_value''} \<Longrightarrow>
   build_payload L self fmt b64 = build_payload L self ''text'' b64"
  by (simp add: build_payload_eq unknown_prompt text_prompt)

lemma fetch_result_unknown:
  "fmt \<notin> {''markdown'', ''text'', ''json'', ''structured'', ''key_value''} \<Longrightarrow>
   fetch_result L self w p fmt pre = fetch_result L self w p ''text'' pre"
  by (auto simp: fetch_result_def build_payload_unknown split: prod.splits sum.splits)

lemma process_image_unknown:
  assumes "fmt \<notin> {''markdown'', ''text'', ''json'', ''structured'', ''key_value''}"
  shows "process_image L self w p fmt pre = process_image L self w p ''text'' pre"
proof -
  from assms have "fmt \<noteq> ''json''" by auto
  then have "postprocess L fmt = postprocess L ''text''"
    by (auto simp: postprocess_def fun_eq_iff)
  then show ?thesis
    by (auto simp: process_image_def process_image_try_def fetch_result_unknown[OF assms]
             split: prod.splits sum.splits)
qed


lemma named_temporary_file_sent:
  "sent (fst (named_temporary_file w cs)) = sent w"
  by (induction cs) (auto simp: Let_def)

lemma render_pdf_sent: "sent (fst (render_pdf L w p)) = sent w"
  using named_temporary_file_sent[of w "temp_supply w"]
  by (auto simp: render_pdf_def split: sum.splits list.splits prod.splits)

lemma preprocess_image_sent: "sent (fst (preprocess_image L w p)) = sent w"
proof -
  obtain w1 ip r where rp: "render_pdf L w p = (w1, ip, r)"
    by (cases "render_pdf L w p")
  with render_pdf_sent[of L w p] have s1: "sent w1 = sent w" by simp
  show ?thesis
    using named_temporary_file_sent[of w1 "temp_supply w1"] s1 rp
    by (auto simp: preprocess_image_def preprocess_image_try_def split: sum.splits prod.splits)
qed

lemma cleanup_sent: "sent (fst (cleanup w p)) = sent w"
  by (auto simp: cleanup_def os_remove_def split: option.splits)

lemma infer_sent: "sent (fst (infer L self w pl)) = sent w @ [(base_url self, pl)]"
  by (auto simp: infer_def Let_def split: sum.splits)

lemma fetch_result_sent:
  "sent (fst (fetch_result L self w p fmt pre)) = sent w \<or>
   (\<exists>b64. sent (fst (fetch_result L self w p fmt pre)) =
      sent w @ [(base_url self,
                 \<lparr>model = model_name self, prompt = dict_get (prompts L) fmt (template_text L),
                  stream = False, images = [b64]\<rparr>)])"
proof -
  obtain w1 r1 where pp: "(if pre then preprocess_image L w p else (w, Inr p)) = (w1, r1)"
    by (cases "if pre then preprocess_image L w p else (w, Inr p)")
  then have s1: "sent w1 = sent w"
    using preprocess_image_sent[of L w p] by (auto split: if_splits)
  show ?thesis
  proof (cases r1)
    case (Inl e)
    with pp s1 show ?thesis by (simp add: fetch_result_def)
  next
    case (Inr ip)
    show ?thesis
    proof (cases "encode_image L w1 ip")
      case (Inl e)
      with pp s1 Inr show ?thesis by (simp add: fetch_result_def)
    next
      case enc: (Inr b64)
      obtain w2 r2 where cl: "cleanup w1 ip = (w2, r2)" by (cases "cleanup w1 ip")
      with cleanup_sent[of w1 ip] s1 have s2: "sent w2 = sent w" by simp
      show ?thesis
      proof (cases r2)
        case (Inl e)
        with pp s2 Inr enc cl show ?thesis by (simp add: fetch_result_def)
      next
        case ok: (Inr u)
        have "fetch_result L self w p fmt pre =
                infer L self w2 \<lparr>model = model_name self, prompt = dict_get (prompts L) fmt (template_text L),
                  stream = False, images = [b64]\<rparr>"
          using pp Inr enc cl ok by (simp add: fetch_result_def build_payload_eq)
        with s2 show ?thesis by (simp add: infer_sent)
      qed
    qed
  qed
qed

lemma fst_process_image:
  "fst (process_image L self w p fmt pre) = fst (fetch_result L self w p fmt pre)"
  by (auto simp: process_image_def process_image_try_def split: prod.splits sum.splits)

text \<open>
  Claim C5. For a format that is none of the five keys of the dictionary of templates,
  the request that \<open>process_image\<close> builds is the one it builds for \<open>text\<close>, with the
  template of \<open>text\<close> as its prompt; the whole call, with the requests it posts and the
  value it returns, is the call for \<open>text\<close>, so that the fallback is no failure of its
  own; and a request posted by the call carries the template of \<open>text\<close>.
\<close>

theorem unknown_format_uses_text_template:
  "fmt \<notin> {''markdown'', ''text'', ''json'', ''structured'', ''key_value''} \<longrightarrow>
     build_payload L self fmt b64 = build_payload L self ''text'' b64 \<and>
     build_payload L self fmt b64 =
       Inr \<lparr>model = model_name self, prompt = template_text L, stream = False, images = [b64]\<rparr> \<and>
     process_image L self w p fmt pre = process_image L self w p ''text'' pre \<and>
     (sent (fst (process_image L self w p fmt pre)) = sent w \<or>
      (\<exists>img. sent (fst (process_image L self w p fmt pre)) =
         sent w @ [(base_url self,
                    \<lparr>model = model_name self, prompt = template_text L,
                     stream = False, images = [img]\<rparr>)]))"
proof (intro impI conjI)
  assume u: "fmt \<notin> {''markdown'', ''text'', ''json'', ''structured'', ''key_value''}"
  show "build_payload L self fmt b64 = build_payload L self ''text'' b64"
    by (rule build_payload_unknown[OF u])
  show "build_payload L self fmt b64 =
       Inr \<lparr>model = model_name self, prompt = template_text L, stream = False, images = [b64]\<rparr>"
    by (simp add: build_payload_eq unknown_prompt[OF u])
  show "process_image L self w p fmt pre = process_image L self w p ''text'' pre"
    by (rule process_image_unknown[OF u])
  show "sent (fst (process_image L self w p fmt pre)) = sent w \<or>
      (\<exists>img. sent (fst (process_image L self w p fmt pre)) =
         sent w @ [(base_url self,
                    \<lparr>model = model_name self, prompt = template_text L,
                     stream = False, images = [img]\<rparr>)])"
    using fetch_result_sent[of L self w p fmt pre]
    by (simp add: fst_process_image unknown_prompt[OF u])
qed

text \<open>The theorem at the format \<open>yaml\<close>.\<close>

theorem unknown_format_uses_text_template_witness:
  "''yaml'' \<notin> {''markdown'', ''text'', ''json'', ''structured'', ''key_value''} \<and>
   process_image demo_libs demo_self demo_world ''scan.png'' ''yaml'' False
     = process_image demo_libs demo_self demo_world ''scan.png'' ''text'' False \<and>
   snd (process_image demo_libs demo_self demo_world ''scan.png'' ''text'' False) = Inr (JStr ''[1]'') \<and>
   sent (fst (process_image demo_libs demo_self demo_world ''scan.png'' ''yaml'' False)) =
     [(''http://localhost:11434/api/generate'',
       \<lparr>model = ''llama3.2-vision:11b'', prompt = ''text template'', stream = False,
        images = [''PNG'']\<rparr>)]"
proof -
  have u: "''yaml'' \<notin> {''markdown'', ''text'', ''json'', ''structured'', ''key_value''}"
    by simp
  have t: "snd (process_image demo_libs demo_self demo_world ''scan.png'' ''text'' False) = Inr (JStr ''[1]'')"
    by code_simp
  have st: "sent (fst (process_image demo_libs demo_self demo_world ''scan.png'' ''text'' False)) =
     [(''http://localhost:11434/api/generate'',
       \<lparr>model = ''llama3.2-vision:11b'', prompt = ''text template'', stream = False,
        images = [''PNG'']\<rparr>)]"
    by code_simp
  from unknown_format_uses_text_template [of "''yaml''" demo_libs demo_self "[]" demo_world "''scan.png''" False] u
  have "process_image demo_libs demo_self demo_world ''scan.png'' ''yaml'' False
     = process_image demo_libs demo_self demo_world ''scan.png'' ''text'' False"
    by blast
  with u t st show ?thesis by simp
qed

subsection \<open>The batch: what the report holds\<close>

lemma run_tasks_length:
  "length (snd (run_tasks L self w ps fmt pre)) = length ps"
proof (induction ps arbitrary: w)
  case Nil
  then show ?case by simp
next
  case (Cons q qs)
  obtain w1 r1 where pi: "process_image L self w q fmt pre = (w1, r1)"
    by (cases "process_image L self w q fmt pre")
  obtain w2 rs where rt: "run_tasks L self w1 qs fmt pre = (w2, rs)"
    by (cases "run_tasks L self w1 qs fmt pre")
  from Cons.IH[of w1] rt have "length rs = length qs" by simp
  with pi rt show ?case by simp
qed

lemma run_tasks_outcome:
  "(p, r) \<in> set (zip ps (snd (run_tasks L self w ps fmt pre))) \<Longrightarrow>
   \<exists>w0. r = snd (process_image L self w0 p fmt pre)"
proof (induction ps arbitrary: w)
  case Nil
  then show ?case by simp
next
  case (Cons q qs)
  obtain w1 r1 where pi: "process_image L self w q fmt pre = (w1, r1)"
    by (cases "process_image L self w q fmt pre")
  obtain w2 rs where rt: "run_tasks L self w1 qs fmt pre = (w2, rs)"
    by (cases "run_tasks L self w1 qs fmt pre")
  from Cons.prems pi rt have "(p, r) = (q, r1) \<or> (p, r) \<in> set (zip qs (snd (run_tasks L self w1 qs fmt pre)))"
    by auto
  then show ?case
  proof
    assume "(p, r) = (q, r1)"
    with pi have "r = snd (process_image L self w p fmt pre)" by simp
    then show ?thesis ..
  next
    assume "(p, r) \<in> set (zip qs (snd (run_tasks L self w1 qs fmt pre)))"
    then show ?thesis by (rule Cons.IH)
  qed
qed

lemma run_tasks_returned:
  assumes "(p, r) \<in> set (zip ps (snd (run_tasks L self w ps fmt pre)))"
  shows "\<exists>v. r = Inr v"
proof -
  from run_tasks_outcome[OF assms] obtain w0 where "r = snd (process_image L self w0 p fmt pre)" ..
  with process_image_returns[of L self w0 p fmt pre] show ?thesis by auto
qed

lemma collect_errors_unchanged:
  "\<forall>x \<in> set xs. \<exists>v. snd x = Inr v \<Longrightarrow> snd (collect xs res errs) = errs"
  by (induction xs res errs rule: collect.induct) auto

lemma collect_result_keys:
  "\<forall>x \<in> set xs. \<exists>v. snd x = Inr v \<Longrightarrow>
   fst ` set (fst (collect xs res errs)) = fst ` set res \<union> fst ` set xs"
  by (induction xs res errs rule: collect.induct) (auto simp: dom_update)

lemma collect_distinct:
  "distinct (map fst res) \<Longrightarrow> distinct (map fst (fst (collect xs res errs)))"
  by (induction xs res errs rule: collect.induct) (auto simp: distinct_update)

lemma update_member:
  "(p, v) \<in> set (AList.update k u al) \<Longrightarrow> (p, v) = (k, u) \<or> (p, v) \<in> set al"
  by (induction al) (auto split: if_splits)

lemma collect_result_values:
  "(p, v) \<in> set (fst (collect xs res errs)) \<Longrightarrow> (p, v) \<in> set res \<or> (p, Inr v) \<in> set xs"
  by (induction xs res errs rule: collect.induct) (auto dest: update_member)


lemma process_batch_report:
  assumes mw: "0 < max_workers self" and ac: "completes_each_once L"
  shows "\<exists>w' r. process_batch L self w inp fmt rec pre = (w', Inr r) \<and>
           errors r = [] \<and>
           fst ` set (results r) = set (discover L w inp rec) \<and>
           distinct (map fst (results r)) \<and>
           total (statistics r) = length (discover L w inp rec) \<and>
           successful (statistics r) = length (results r) \<and>
           failed (statistics r) = length (errors r) \<and>
           (\<forall>p v. (p, v) \<in> set (results r) \<longrightarrow>
               (\<exists>w0. snd (process_image L self w0 p fmt pre) = Inr v))"
proof -
  define ps where "ps = discover L w inp rec"
  obtain w' outs where rt: "run_tasks L self w ps fmt pre = (w', outs)"
    by (cases "run_tasks L self w ps fmt pre")
  define xs where "xs = as_completed L (zip ps outs)"
  obtain res errs where co: "collect xs [] [] = (res, errs)"
    by (cases "collect xs [] []")
  have len: "length outs = length ps"
    using run_tasks_length[of L self w ps fmt pre] rt by simp
  have setxs: "set xs = set (zip ps outs)"
    using ac unfolding xs_def completes_each_once_def by (metis mset_eq_setD)
  have outs: "snd (run_tasks L self w ps fmt pre) = outs" using rt by simp
  have allret: "\<forall>x \<in> set xs. \<exists>v. snd x = Inr v"
  proof
    fix x assume "x \<in> set xs"
    with setxs have "(fst x, snd x) \<in> set (zip ps (snd (run_tasks L self w ps fmt pre)))"
      by (simp add: outs)
    then show "\<exists>v. snd x = Inr v" by (rule run_tasks_returned)
  qed
  have errs: "errs = []"
    using collect_errors_unchanged[OF allret, of "[]" "[]"] co by simp
  have "fst ` set res = fst ` set xs"
    using collect_result_keys[OF allret, of "[]" "[]"] co by simp
  also have "\<dots> = set (map fst (zip ps outs))" by (simp add: setxs)
  also have "\<dots> = set ps" using len by (simp add: map_fst_zip)
  finally have keys: "fst ` set res = set ps" .
  have dist: "distinct (map fst res)"
    using collect_distinct[of "[]" xs "[]"] co by simp
  have vals: "\<exists>w0. snd (process_image L self w0 p fmt pre) = Inr v" if "(p, v) \<in> set res" for p v
  proof -
    from that collect_result_values[of p v xs "[]" "[]"] co have "(p, Inr v) \<in> set xs" by simp
    with setxs outs have "(p, Inr v) \<in> set (zip ps (snd (run_tasks L self w ps fmt pre)))" by simp
    from run_tasks_outcome[OF this] show ?thesis by metis
  qed
  have "process_batch L self w inp fmt rec pre =
          (w', Inr \<lparr>results = res, errors = errs,
                    statistics = \<lparr>total = length ps, successful = length res, failed = length errs\<rparr>\<rparr>)"
    using mw rt co by (simp add: process_batch_def Let_def ps_def[symmetric] xs_def[symmetric])
  with errs keys dist vals show ?thesis
    unfolding ps_def by auto
qed

lemma demo_completes: "completes_each_once demo_libs"
  by (simp add: completes_each_once_def demo_libs_def)

lemma demo_workers: "0 < max_workers demo_self"
  by (simp add: demo_self_def init_def)

text \<open>
  Claim C9. With futures that complete each once, every call of \<open>process_batch\<close> with a
  positive number of workers returns a report, and every report that \<open>process_batch\<close>
  returns has an empty \<open>errors\<close> dictionary and a \<open>failed\<close> count of 0; the keys of
  \<open>results\<close> are exactly the paths that were attempted, and each value of \<open>results\<close> is
  what \<open>process_image\<close> returned for its path, the failure text of line 209 included.
\<close>

theorem batch_errors_always_empty:
  assumes "completes_each_once L"
  shows "(0 < max_workers self \<longrightarrow>
            (\<exists>w' r. process_batch L self w inp fmt rec pre = (w', Inr r))) \<and>
         (\<forall>r. snd (process_batch L self w inp fmt rec pre) = Inr r \<longrightarrow>
            errors r = [] \<and> failed (statistics r) = 0 \<and>
            fst ` set (results r) = set (discover L w inp rec) \<and>
            (\<forall>p v. (p, v) \<in> set (results r) \<longrightarrow>
               (\<exists>w0. snd (process_image L self w0 p fmt pre) = Inr v)))"
proof (cases "0 < max_workers self")
  case True
  from process_batch_report[OF True assms, of w inp fmt rec pre] show ?thesis
    by (elim exE conjE) simp
next
  case False
  then show ?thesis by (simp add: process_batch_def Let_def)
qed

text \<open>
  The theorem at a list of two files of which the second does not exist: its failure
  text is a value of \<open>results\<close>.
\<close>

theorem batch_errors_always_empty_witness:
  "completes_each_once demo_libs \<and> 0 < max_workers demo_self \<and>
   snd (process_batch demo_libs demo_self demo_world (PathList [''scan.png'', ''nothere.png''])
          ''text'' False False)
     = Inr \<lparr>results = [(''nothere.png'', JStr (msg_process_failed @ str_exn (no_such_file ''nothere.png''))),
                        (''scan.png'', JStr ''[1]'')],
            errors = [],
            statistics = \<lparr>total = 2, successful = 2, failed = 0\<rparr>\<rparr> \<and>
   errors \<lparr>results = [(''nothere.png'', JStr (msg_process_failed @ str_exn (no_such_file ''nothere.png''))),
                      (''scan.png'', JStr ''[1]'')],
          errors = [],
          statistics = \<lparr>total = 2, successful = 2, failed = 0\<rparr>\<rparr> = []"
proof -
  have run: "snd (process_batch demo_libs demo_self demo_world (PathList [''scan.png'', ''nothere.png''])
          ''text'' False False)
     = Inr \<lparr>results = [(''nothere.png'', JStr (msg_process_failed @ str_exn (no_such_file ''nothere.png''))),
                        (''scan.png'', JStr ''[1]'')],
            errors = [],
            statistics = \<lparr>total = 2, successful = 2, failed = 0\<rparr>\<rparr>"
    by code_simp
  from batch_errors_always_empty [OF demo_completes, of demo_self demo_world
      "PathList [''scan.png'', ''nothere.png'']" "''text''" False False] run
  have "errors \<lparr>results = [(''nothere.png'', JStr (msg_process_failed @ str_exn (no_such_file ''nothere.png''))),
                      (''scan.png'', JStr ''[1]'')],
          errors = [],
          statistics = \<lparr>total = 2, successful = 2, failed = 0\<rparr>\<rparr> = []"
    by blast
  with demo_completes demo_workers run show ?thesis by blast
qed

text \<open>
  Claim C2, at an endpoint that answers every request with status 500. The claim puts
  the two paths in \<open>errors\<close>; the code returns them as keys of \<open>results\<close>, with the
  failure text as their value, counts both as successful, and leaves \<open>errors\<close> empty.
\<close>

theorem server_errors_land_in_results:
  "snd (process_batch demo_libs_500 demo_self demo_world (PathList [''scan.png'', ''doc.pdf''])
          ''text'' False False)
     = Inr \<lparr>results =
              [(''doc.pdf'',
                JStr (msg_process_failed @ ''500 Server Error: Internal Server Error for url: '' @
                      ''http://localhost:11434/api/generate'')),
               (''scan.png'',
                JStr (msg_process_failed @ ''500 Server Error: Internal Server Error for url: '' @
                      ''http://localhost:11434/api/generate''))],
            errors = [],
            statistics = \<lparr>total = 2, successful = 2, failed = 0\<rparr>\<rparr>"
  by code_simp

text \<open>
  Claim C10. When the list given to \<open>process_batch\<close> holds some path string more than
  once, the report counts the whole list in \<open>total\<close>, the two dictionaries have one key for
  each path string at most, all of them string forms of given paths, and \<open>successful +
  failed\<close> is less than \<open>total\<close>.
\<close>

theorem duplicate_paths_counted_once:
  assumes mw: "0 < max_workers self" and ac: "completes_each_once L" and dup: "\<not> distinct ps"
  shows "\<exists>w' r. process_batch L self w (PathList ps) fmt rec pre = (w', Inr r) \<and>
           total (statistics r) = length ps \<and>
           distinct (map fst (results r)) \<and> distinct (map fst (errors r)) \<and>
           fst ` set (results r) \<union> fst ` set (errors r) \<subseteq> str_Path L ` set ps \<and>
           successful (statistics r) + failed (statistics r) < total (statistics r)"
proof -
  have d: "discover L w (PathList ps) rec = map (str_Path L) ps"
    by (simp add: discover_def)
  from process_batch_report[OF mw ac, of w "PathList ps" fmt rec pre]
  obtain w' r where pb: "process_batch L self w (PathList ps) fmt rec pre = (w', Inr r)"
    and e: "errors r = []"
    and k: "fst ` set (results r) = str_Path L ` set ps"
    and di: "distinct (map fst (results r))"
    and t: "total (statistics r) = length ps"
    and su: "successful (statistics r) = length (results r)"
    and f: "failed (statistics r) = length (errors r)"
    unfolding d by auto
  have "length (results r) = card (fst ` set (results r))"
    using di by (metis distinct_card length_map set_map)
  also have "\<dots> \<le> card (set ps)" unfolding k by (rule card_image_le) simp
  also have "\<dots> < length ps"
    using dup card_distinct[of ps] card_length[of ps] by (cases "card (set ps) = length ps") auto
  finally have "length (results r) < length ps" .
  with pb e k di t su f show ?thesis by auto
qed

text \<open>The theorem at a list that names one file twice.\<close>

theorem duplicate_paths_counted_once_witness:
  "0 < max_workers demo_self \<and> completes_each_once demo_libs \<and> \<not> distinct [''scan.png'', ''scan.png''] \<and>
   snd (process_batch demo_libs demo_self demo_world (PathList [''scan.png'', ''scan.png''])
          ''text'' False False)
     = Inr \<lparr>results = [(''scan.png'', JStr ''[1]'')], errors = [],
            statistics = \<lparr>total = 2, successful = 1, failed = 0\<rparr>\<rparr> \<and>
   (\<exists>w' r. process_batch demo_libs demo_self demo_world (PathList [''scan.png'', ''scan.png''])
              ''text'' False False = (w', Inr r) \<and>
            successful (statistics r) + failed (statistics r) < total (statistics r))"
proof -
  have dup: "\<not> distinct [''scan.png'', ''scan.png'']" by simp
  have run: "snd (process_batch demo_libs demo_self demo_world (PathList [''scan.png'', ''scan.png''])
          ''text'' False False)
     = Inr \<lparr>results = [(''scan.png'', JStr ''[1]'')], errors = [],
            statistics = \<lparr>total = 2, successful = 1, failed = 0\<rparr>\<rparr>"
    by code_simp
  from duplicate_paths_counted_once [OF demo_workers demo_completes dup, of demo_world "''text''" False False]
  have "\<exists>w' r. process_batch demo_libs demo_self demo_world (PathList [''scan.png'', ''scan.png''])
              ''text'' False False = (w', Inr r) \<and>
            successful (statistics r) + failed (statistics r) < total (statistics r)"
    by blast
  with demo_workers demo_completes dup run show ?thesis by blast
qed

text \<open>
  Claim C1 fails as it is stated: for a list that names a file twice, the counts do not
  add up to \<open>total\<close>.
\<close>

theorem batch_accounting_counterexample:
  "snd (process_batch demo_libs demo_self demo_world (PathList [''doc.pdf'', ''doc.pdf'', ''scan.png''])
          ''text'' False False)
     = Inr \<lparr>results = [(''scan.png'', JStr ''[1]''), (''doc.pdf'', JStr ''[1]'')], errors = [],
            statistics = \<lparr>total = 3, successful = 2, failed = 0\<rparr>\<rparr> \<and>
   successful (statistics (projr (snd (process_batch demo_libs demo_self demo_world
       (PathList [''doc.pdf'', ''doc.pdf'', ''scan.png'']) ''text'' False False))))
   + failed (statistics (projr (snd (process_batch demo_libs demo_self demo_world
       (PathList [''doc.pdf'', ''doc.pdf'', ''scan.png'']) ''text'' False False))))
   \<noteq> total (statistics (projr (snd (process_batch demo_libs demo_self demo_world
       (PathList [''doc.pdf'', ''doc.pdf'', ''scan.png'']) ''text'' False False))))"
proof -
  have run: "snd (process_batch demo_libs demo_self demo_world (PathList [''doc.pdf'', ''doc.pdf'', ''scan.png''])
          ''text'' False False)
     = Inr \<lparr>results = [(''scan.png'', JStr ''[1]''), (''doc.pdf'', JStr ''[1]'')], errors = [],
            statistics = \<lparr>total = 3, successful = 2, failed = 0\<rparr>\<rparr>"
    by code_simp
  show ?thesis by (simp add: run)
qed

text \<open>
  Claim C1, amended. With futures that complete each once and a positive number of
  workers, \<open>process_batch\<close> returns a report in which every discovered path is a key of
  exactly one of \<open>results\<close> and \<open>errors\<close>, the two dictionaries have no other keys,
  \<open>successful\<close> and \<open>failed\<close> are their sizes and \<open>total\<close> is the number of discovered
  paths; \<open>successful + failed\<close> is the number of distinct discovered path strings, and
  so it is \<open>total\<close> whenever no path string was discovered twice.
\<close>

theorem batch_accounting:
  assumes mw: "0 < max_workers self" and ac: "completes_each_once L"
  shows "\<exists>w' r. process_batch L self w inp fmt rec pre = (w', Inr r) \<and>
           (\<forall>p \<in> set (discover L w inp rec).
               (p \<in> fst ` set (results r)) \<noteq> (p \<in> fst ` set (errors r))) \<and>
           fst ` set (results r) \<union> fst ` set (errors r) = set (discover L w inp rec) \<and>
           distinct (map fst (results r)) \<and> distinct (map fst (errors r)) \<and>
           successful (statistics r) = length (results r) \<and>
           failed (statistics r) = length (errors r) \<and>
           total (statistics r) = length (discover L w inp rec) \<and>
           successful (statistics r) + failed (statistics r) = card (set (discover L w inp rec)) \<and>
           (distinct (discover L w inp rec) \<longrightarrow>
              successful (statistics r) + failed (statistics r) = total (statistics r))"
proof -
  from process_batch_report[OF mw ac, of w inp fmt rec pre]
  obtain w' r where pb: "process_batch L self w inp fmt rec pre = (w', Inr r)"
    and e: "errors r = []"
    and k: "fst ` set (results r) = set (discover L w inp rec)"
    and di: "distinct (map fst (results r))"
    and t: "total (statistics r) = length (discover L w inp rec)"
    and su: "successful (statistics r) = length (results r)"
    and f: "failed (statistics r) = length (errors r)"
    by auto
  have c: "length (results r) = card (set (discover L w inp rec))"
    using di k by (metis distinct_card length_map set_map)
  have "distinct (discover L w inp rec) \<longrightarrow> length (results r) = length (discover L w inp rec)"
    using c by (simp add: distinct_card)
  with pb e k di t su f c show ?thesis by auto
qed

text \<open>The theorem at a list of two different files.\<close>

theorem batch_accounting_witness:
  "0 < max_workers demo_self \<and> completes_each_once demo_libs \<and>
   distinct (discover demo_libs demo_world (PathList [''scan.png'', ''doc.pdf'']) False) \<and>
   (\<exists>w' r. process_batch demo_libs demo_self demo_world (PathList [''scan.png'', ''doc.pdf''])
              ''text'' False False = (w', Inr r) \<and>
            successful (statistics r) + failed (statistics r) = total (statistics r))"
proof -
  have d: "distinct (discover demo_libs demo_world (PathList [''scan.png'', ''doc.pdf'']) False)"
    by code_simp
  from batch_accounting [OF demo_workers demo_completes, of demo_world
      "PathList [''scan.png'', ''doc.pdf'']" "''text''" False False] d
  have "\<exists>w' r. process_batch demo_libs demo_self demo_world (PathList [''scan.png'', ''doc.pdf''])
              ''text'' False False = (w', Inr r) \<and>
            successful (statistics r) + failed (statistics r) = total (statistics r)"
    by blast
  with demo_workers demo_completes d show ?thesis by blast
qed

subsection \<open>Path discovery\<close>

lemma endswith_iff: "endswith s sfx \<longleftrightarrow> (\<exists>pre. s = pre @ sfx)"
proof
  assume "endswith s sfx"
  then have "s = take (length s - length sfx) s @ sfx"
    by (metis append_take_drop_id endswith_def)
  then show "\<exists>pre. s = pre @ sfx" ..
next
  assume "\<exists>pre. s = pre @ sfx"
  then show "endswith s sfx" by (auto simp: endswith_def)
qed

lemma fnmatch_literal:
  "CHR ''*'' \<notin> set pat \<Longrightarrow> CHR ''?'' \<notin> set pat \<Longrightarrow> fnmatch pat name \<longleftrightarrow> name = pat"
  by (induction pat arbitrary: name) (auto split: list.splits)

lemma set_tails: "set (tails s) = {t. \<exists>pre. s = pre @ t}"
proof (induction s)
  case Nil
  show ?case by auto
next
  case (Cons c s)
  show ?case by (auto simp: Cons Cons_eq_append_conv)
qed

lemma fnmatch_star:
  assumes "CHR ''*'' \<notin> set ext" "CHR ''?'' \<notin> set ext"
  shows "fnmatch (CHR ''*'' # ext) name \<longleftrightarrow> endswith name ext"
  by (auto simp: list_ex_iff fnmatch_literal[OF assms] set_tails endswith_iff)

lemma split_slash_plain: "CHR ''/'' \<notin> set s \<Longrightarrow> split_slash s = [s]"
  by (induction s) auto

lemma name_matches_star:
  assumes "plain_suffix ext" and "glob_fold L (''*'' @ ext) = ''*'' @ ext"
  shows "name_matches L (''*'' @ ext) name \<longleftrightarrow> endswith (glob_fold L name) ext"
proof -
  from assms(1) have w: "CHR ''*'' \<notin> set ext" "CHR ''?'' \<notin> set ext"
    by (auto simp: plain_suffix_def)
  have "name_matches L (''*'' @ ext) name \<longleftrightarrow> fnmatch (''*'' @ ext) (glob_fold L name)"
    by (simp only: name_matches_def assms(2))
  also have "\<dots> \<longleftrightarrow> endswith (glob_fold L name) ext"
    using fnmatch_star[OF w] by simp
  finally show ?thesis .
qed

lemma glob_one_level:
  "set (glob_parts L [pat] p (Dir es)) =
     {path_join L p (fst e) | e. e \<in> set es \<and> name_matches L pat (fst e)}"
  if "pat \<noteq> ''**''"
  using that by auto

lemma glob_all_levels:
  assumes "pat \<noteq> ''**''"
  shows "set (glob_parts L [''**'', pat] p n) =
     {foldl (path_join L) p names | names.
        names \<noteq> [] \<and> entry_at n names \<and> name_matches L pat (last names)}"
proof (induction n arbitrary: p)
  case File
  show ?case by (auto simp: neq_Nil_conv)
next
  case (Dir es)
  have IH: "set (glob_parts L [''**'', pat] q (snd e)) =
     {foldl (path_join L) q names | names.
        names \<noteq> [] \<and> entry_at (snd e) names \<and> name_matches L pat (last names)}"
    if "e \<in> set es" for e q
    using Dir[of e "snd e" q] that by (cases e) auto
  have unfold: "set (glob_parts L [''**'', pat] p (Dir es)) =
      {path_join L p (fst e) | e. e \<in> set es \<and> name_matches L pat (fst e)} \<union>
      (\<Union>e \<in> set es. set (glob_parts L [''**'', pat] (path_join L p (fst e)) (snd e)))"
    using assms by auto
  show ?case
  proof (intro set_eqI iffI)
    fix x assume "x \<in> set (glob_parts L [''**'', pat] p (Dir es))"
    then consider e where "e \<in> set es" "name_matches L pat (fst e)" "x = path_join L p (fst e)"
      | e where "e \<in> set es" "x \<in> set (glob_parts L [''**'', pat] (path_join L p (fst e)) (snd e))"
      unfolding unfold by auto
    then show "x \<in> {foldl (path_join L) p names | names.
        names \<noteq> [] \<and> entry_at (Dir es) names \<and> name_matches L pat (last names)}"
    proof cases
      case 1
      then have "x = foldl (path_join L) p [fst e]" "entry_at (Dir es) [fst e]"
        "name_matches L pat (last [fst e])"
        by (auto simp: list_ex_iff)
      then show ?thesis by blast
    next
      case 2
      from 2(2) IH[OF 2(1)] obtain names where n: "x = foldl (path_join L) (path_join L p (fst e)) names"
        "names \<noteq> []" "entry_at (snd e) names" "name_matches L pat (last names)" by auto
      then have "x = foldl (path_join L) p (fst e # names)" "entry_at (Dir es) (fst e # names)"
        "name_matches L pat (last (fst e # names))"
        using 2(1) by (auto simp: list_ex_iff)
      then show ?thesis by blast
    qed
  next
    fix x assume "x \<in> {foldl (path_join L) p names | names.
        names \<noteq> [] \<and> entry_at (Dir es) names \<and> name_matches L pat (last names)}"
    then obtain c cs where x: "x = foldl (path_join L) p (c # cs)" "entry_at (Dir es) (c # cs)"
      "name_matches L pat (last (c # cs))"
      by (auto simp: neq_Nil_conv)
    from x(2) obtain e where e: "e \<in> set es" "fst e = c" "entry_at (snd e) cs"
      by (auto simp: list_ex_iff)
    show "x \<in> set (glob_parts L [''**'', pat] p (Dir es))"
    proof (cases cs)
      case Nil
      with x e have "x = path_join L p (fst e)" "name_matches L pat (fst e)" by auto
      with e(1) show ?thesis unfolding unfold by blast
    next
      case (Cons d ds)
      with x e have "x = foldl (path_join L) (path_join L p (fst e)) cs" "cs \<noteq> []"
        "entry_at (snd e) cs" "name_matches L pat (last cs)"
        by auto
      then have "x \<in> set (glob_parts L [''**'', pat] (path_join L p (fst e)) (snd e))"
        unfolding IH[OF e(1)] by blast
      with e(1) show ?thesis unfolding unfold by blast
    qed
  qed
qed

lemma glob_star_suffix:
  assumes "plain_suffix ext" and "glob_fold L (''*'' @ ext) = ''*'' @ ext"
  shows "set (glob L base (Dir es) (''*'' @ ext)) =
     {foldl (path_join L) base names | names.
        length names = 1 \<and> entry_at (Dir es) names \<and> endswith (glob_fold L (last names)) ext}"
proof -
  from assms(1) have w: "CHR ''*'' \<notin> set ext" and sl: "CHR ''/'' \<notin> set (''*'' @ ext)"
    by (auto simp: plain_suffix_def)
  from w have ne: "''*'' @ ext \<noteq> ''**''" by auto
  have "set (glob L base (Dir es) (''*'' @ ext)) =
      {path_join L base (fst e) | e. e \<in> set es \<and> endswith (glob_fold L (fst e)) ext}"
    unfolding glob_def split_slash_plain[OF sl] glob_one_level[OF ne]
    by (simp only: name_matches_star[OF assms])
  also have "\<dots> = {foldl (path_join L) base names | names.
        length names = 1 \<and> entry_at (Dir es) names \<and> endswith (glob_fold L (last names)) ext}"
  proof (intro set_eqI iffI)
    fix x assume "x \<in> {path_join L base (fst e) | e. e \<in> set es \<and> endswith (glob_fold L (fst e)) ext}"
    then obtain e where "e \<in> set es" "endswith (glob_fold L (fst e)) ext" "x = path_join L base (fst e)"
      by auto
    then have "x = foldl (path_join L) base [fst e]" "length [fst e] = 1" "entry_at (Dir es) [fst e]"
      "endswith (glob_fold L (last [fst e])) ext"
      by (auto simp: list_ex_iff)
    then show "x \<in> {foldl (path_join L) base names | names.
        length names = 1 \<and> entry_at (Dir es) names \<and> endswith (glob_fold L (last names)) ext}"
      by blast
  next
    fix x assume "x \<in> {foldl (path_join L) base names | names.
        length names = 1 \<and> entry_at (Dir es) names \<and> endswith (glob_fold L (last names)) ext}"
    then obtain names where n: "x = foldl (path_join L) base names" "length names = 1"
      "entry_at (Dir es) names" "endswith (glob_fold L (last names)) ext" by auto
    from n(2) obtain c where c: "names = [c]" by (cases names) auto
    with n obtain e where e: "e \<in> set es" "fst e = c" by (auto simp: list_ex_iff)
    with n c have "x = path_join L base (fst e)" "endswith (glob_fold L (fst e)) ext" by auto
    with e(1) show "x \<in> {path_join L base (fst e) | e. e \<in> set es \<and> endswith (glob_fold L (fst e)) ext}"
      by blast
  qed
  finally show ?thesis .
qed

lemma glob_starstar_suffix:
  assumes "plain_suffix ext" and "glob_fold L (''*'' @ ext) = ''*'' @ ext"
  shows "set (glob L base (Dir es) (''**/*'' @ ext)) =
     {foldl (path_join L) base names | names.
        names \<noteq> [] \<and> entry_at (Dir es) names \<and> endswith (glob_fold L (last names)) ext}"
proof -
  from assms(1) have w: "CHR ''*'' \<notin> set ext" and sl: "CHR ''/'' \<notin> set ext"
    by (auto simp: plain_suffix_def)
  from w have ne: "''*'' @ ext \<noteq> ''**''" by auto
  have sp: "split_slash (''**/*'' @ ext) = [''**'', ''*'' @ ext]"
    using split_slash_plain[OF sl] by simp
  show ?thesis
    unfolding glob_def sp glob_all_levels[OF ne]
    by (simp only: name_matches_star[OF assms])
qed

lemma extensions_plain: "\<forall>ext \<in> set extensions. plain_suffix ext"
  by (simp add: extensions_def plain_suffix_def)

lemma patterns_folded:
  assumes "os_name L = ''nt'' \<longrightarrow> folds_keep_patterns L" and "ext \<in> set extensions"
  shows "glob_fold L (''*'' @ ext) = ''*'' @ ext"
  using assms by (auto simp: glob_fold_def folds_keep_patterns_def)

lemma discover_directory:
  assumes "dir_at w (str_Path L s) = Some es" and "os_name L = ''nt'' \<longrightarrow> folds_keep_patterns L"
  shows "set (discover L w (SinglePath s) recursive) =
     {foldl (path_join L) (str_Path L s) names | names.
        names \<noteq> [] \<and> (recursive \<or> length names = 1) \<and> entry_at (Dir es) names \<and>
        (\<exists>ext \<in> set extensions. endswith (glob_fold L (last names)) ext)}"
proof (cases recursive)
  case True
  have "set (discover L w (SinglePath s) recursive) =
      (\<Union>ext \<in> set extensions. set (glob L (str_Path L s) (Dir es) (''**/*'' @ ext)))"
    using assms(1) True by (simp add: discover_def)
  also have "\<dots> = (\<Union>ext \<in> set extensions.
      {foldl (path_join L) (str_Path L s) names | names.
         names \<noteq> [] \<and> entry_at (Dir es) names \<and> endswith (glob_fold L (last names)) ext})"
    by (intro SUP_cong refl glob_starstar_suffix patterns_folded[OF assms(2)])
       (use extensions_plain in blast)
  finally show ?thesis using True by auto
next
  case False
  have "set (discover L w (SinglePath s) recursive) =
      (\<Union>ext \<in> set extensions. set (glob L (str_Path L s) (Dir es) (''*'' @ ext)))"
    using assms(1) False by (simp add: discover_def)
  also have "\<dots> = (\<Union>ext \<in> set extensions.
      {foldl (path_join L) (str_Path L s) names | names.
         length names = 1 \<and> entry_at (Dir es) names \<and> endswith (glob_fold L (last names)) ext})"
    by (intro SUP_cong refl glob_star_suffix patterns_folded[OF assms(2)])
       (use extensions_plain in blast)
  finally show ?thesis using False by auto
qed

lemma demo_nt_folds: "folds_keep_patterns demo_libs_nt"
  unfolding folds_keep_patterns_def extensions_def demo_libs_nt_def demo_libs_def
  by code_simp

text \<open>
  Claim C8 fails as it is stated, in three places. It speaks of files, but \<open>glob\<close>
  yields the matching entries of a directory whatever their kind: the subdirectory
  \<open>album.jpg\<close> is discovered like a file. It speaks of names that end in \<open>.png\<close>,
  but on Windows pathlib ignores case: \<open>B.PNG\<close>, whose name ends in none of the five
  extensions as they are written, is discovered there. And it has a given path
  attempted verbatim, but the path attempted is \<open>str(Path(p))\<close>: \<open>./scan.png\<close> is
  attempted as \<open>scan.png\<close>.
\<close>

theorem discovery_counterexample:
  "dir_at demo_world (str_Path demo_libs ''scans'') = Some demo_tree \<and>
   map_of demo_tree ''album.jpg'' = Some (Dir [(''cover.png'', File)]) \<and>
   discover demo_libs demo_world (SinglePath ''scans'') False = [''scans/a.png'', ''scans/album.jpg''] \<and>
   os_name demo_libs_nt = ''nt'' \<and>
   dir_at demo_world (str_Path demo_libs_nt ''scans'') = Some demo_tree \<and>
   \<not> (\<exists>ext \<in> {''.png'', ''.jpg'', ''.jpeg'', ''.pdf'', ''.tiff''}. endswith ''B.PNG'' ext) \<and>
   discover demo_libs_nt demo_world (SinglePath ''scans'') False
     = [''scans'' @ backslash @ ''a.png'', ''scans'' @ backslash @ ''B.PNG'', ''scans'' @ backslash @ ''album.jpg''] \<and>
   discover demo_libs demo_world (PathList [''./scan.png'']) False = [''scan.png'']"
  by code_simp

text \<open>
  Claim C8, amended. For a directory, the discovered paths are exactly the paths of the
  entries, of any kind, whose names end in \<open>.png\<close>, \<open>.jpg\<close>, \<open>.jpeg\<close>, \<open>.pdf\<close> or
  \<open>.tiff\<close>, the name being taken as it is on POSIX and with its case folded on
  Windows: the entries of the directory itself when \<open>recursive\<close> is false, those at
  any depth below it when it is true. For a path that is no directory the only path
  discovered is that path, and for a list every given path is discovered, whatever
  its extension; a given path \<open>p\<close> is discovered as \<open>str(Path(p))\<close>, and one task is
  run for each discovered path. On Windows the folding of case is taken to leave the
  five patterns as they are.
\<close>

theorem discovery_by_extension:
  "(dir_at w (str_Path L s) = Some es \<and> (os_name L = ''nt'' \<longrightarrow> folds_keep_patterns L) \<longrightarrow>
      set (discover L w (SinglePath s) recursive) =
        {foldl (path_join L) (str_Path L s) names | names.
           names \<noteq> [] \<and> (recursive \<or> length names = 1) \<and> entry_at (Dir es) names \<and>
           (\<exists>ext \<in> {''.png'', ''.jpg'', ''.jpeg'', ''.pdf'', ''.tiff''}.
              endswith (if os_name L = ''nt'' then win_casefold L (last names) else last names) ext)}) \<and>
   (dir_at w (str_Path L s) = None \<longrightarrow> discover L w (SinglePath s) recursive = [str_Path L s]) \<and>
   discover L w (PathList ps) recursive = map (str_Path L) ps \<and>
   length (snd (run_tasks L self w (discover L w inp recursive) fmt pre))
     = length (discover L w inp recursive)"
proof (intro conjI impI)
  assume "dir_at w (str_Path L s) = Some es \<and> (os_name L = ''nt'' \<longrightarrow> folds_keep_patterns L)"
  then have d: "dir_at w (str_Path L s) = Some es" and f: "os_name L = ''nt'' \<longrightarrow> folds_keep_patterns L"
    by auto
  from discover_directory[OF d f, of recursive]
  show "set (discover L w (SinglePath s) recursive) =
        {foldl (path_join L) (str_Path L s) names | names.
           names \<noteq> [] \<and> (recursive \<or> length names = 1) \<and> entry_at (Dir es) names \<and>
           (\<exists>ext \<in> {''.png'', ''.jpg'', ''.jpeg'', ''.pdf'', ''.tiff''}.
              endswith (if os_name L = ''nt'' then win_casefold L (last names) else last names) ext)}"
    by (simp add: extensions_def glob_fold_def)
next
  assume "dir_at w (str_Path L s) = None"
  then show "discover L w (SinglePath s) recursive = [str_Path L s]"
    by (simp add: discover_def)
next
  show "discover L w (PathList ps) recursive = map (str_Path L) ps"
    by (simp add: discover_def)
next
  show "length (snd (run_tasks L self w (discover L w inp recursive) fmt pre))
     = length (discover L w inp recursive)"
    by (rule run_tasks_length)
qed

text \<open>
  The theorem at the directory \<open>scans\<close>, searched at every depth on POSIX and at its
  own level on Windows, and at the path of a file.
\<close>

theorem discovery_by_extension_witness:
  "dir_at demo_world (str_Path demo_libs ''scans'') = Some demo_tree \<and>
   os_name demo_libs \<noteq> ''nt'' \<and>
   {foldl (path_join demo_libs) (str_Path demo_libs ''scans'') names | names.
      names \<noteq> [] \<and> (True \<or> length names = 1) \<and> entry_at (Dir demo_tree) names \<and>
      (\<exists>ext \<in> {''.png'', ''.jpg'', ''.jpeg'', ''.pdf'', ''.tiff''}.
         endswith (if os_name demo_libs = ''nt'' then win_casefold demo_libs (last names) else last names) ext)}
     = {''scans/a.png'', ''scans/album.jpg/cover.png'', ''scans/album.jpg'', ''scans/sub/c.jpeg'',
        ''scans/sub/d.pdf''} \<and>
   dir_at demo_world (str_Path demo_libs_nt ''scans'') = Some demo_tree \<and>
   os_name demo_libs_nt = ''nt'' \<and> folds_keep_patterns demo_libs_nt \<and>
   {foldl (path_join demo_libs_nt) (str_Path demo_libs_nt ''scans'') names | names.
      names \<noteq> [] \<and> (False \<or> length names = 1) \<and> entry_at (Dir demo_tree) names \<and>
      (\<exists>ext \<in> {''.png'', ''.jpg'', ''.jpeg'', ''.pdf'', ''.tiff''}.
         endswith (if os_name demo_libs_nt = ''nt'' then win_casefold demo_libs_nt (last names)
                   else last names) ext)}
     = {''scans'' @ backslash @ ''a.png'', ''scans'' @ backslash @ ''B.PNG'', ''scans'' @ backslash @ ''album.jpg''} \<and>
   dir_at demo_world (str_Path demo_libs ''scan.png'') = None \<and>
   discover demo_libs demo_world (SinglePath ''scan.png'') True = [''scan.png'']"
proof -
  have d: "dir_at demo_world (str_Path demo_libs ''scans'') = Some demo_tree"
    by code_simp
  have o: "os_name demo_libs \<noteq> ''nt''"
    by code_simp
  have dn: "dir_at demo_world (str_Path demo_libs_nt ''scans'') = Some demo_tree"
    by code_simp
  have on: "os_name demo_libs_nt = ''nt''"
    by code_simp
  have n: "dir_at demo_world (str_Path demo_libs ''scan.png'') = None"
    by code_simp
  have run: "discover demo_libs demo_world (SinglePath ''scans'') True =
      [''scans/a.png'', ''scans/album.jpg/cover.png'', ''scans/album.jpg'', ''scans/sub/c.jpeg'',
       ''scans/sub/d.pdf'']"
    by code_simp
  have runn: "discover demo_libs_nt demo_world (SinglePath ''scans'') False = [''scans'' @ backslash @ ''a.png'', ''scans'' @ backslash @ ''B.PNG'', ''scans'' @ backslash @ ''album.jpg'']"
    by code_simp
  have sp: "str_Path demo_libs ''scan.png'' = ''scan.png''"
    by code_simp
  note dir = discovery_by_extension [where w = demo_world and L = demo_libs and s = "''scans''"
      and es = demo_tree and recursive = True]
  note dirn = discovery_by_extension [where w = demo_world and L = demo_libs_nt and s = "''scans''"
      and es = demo_tree and recursive = False]
  note single = discovery_by_extension [where w = demo_world and L = demo_libs and s = "''scan.png''"
      and recursive = True]
  from dir d o have "set (discover demo_libs demo_world (SinglePath ''scans'') True) =
     {foldl (path_join demo_libs) (str_Path demo_libs ''scans'') names | names.
      names \<noteq> [] \<and> (True \<or> length names = 1) \<and> entry_at (Dir demo_tree) names \<and>
      (\<exists>ext \<in> {''.png'', ''.jpg'', ''.jpeg'', ''.pdf'', ''.tiff''}.
         endswith (if os_name demo_libs = ''nt'' then win_casefold demo_libs (last names) else last names) ext)}"
    by blast
  then have s: "{foldl (path_join demo_libs) (str_Path demo_libs ''scans'') names | names.
      names \<noteq> [] \<and> (True \<or> length names = 1) \<and> entry_at (Dir demo_tree) names \<and>
      (\<exists>ext \<in> {''.png'', ''.jpg'', ''.jpeg'', ''.pdf'', ''.tiff''}.
         endswith (if os_name demo_libs = ''nt'' then win_casefold demo_libs (last names) else last names) ext)}
     = {''scans/a.png'', ''scans/album.jpg/cover.png'', ''scans/album.jpg'', ''scans/sub/c.jpeg'',
        ''scans/sub/d.pdf''}"
    unfolding run by simp
  from dirn dn demo_nt_folds have "set (discover demo_libs_nt demo_world (SinglePath ''scans'') False) =
     {foldl (path_join demo_libs_nt) (str_Path demo_libs_nt ''scans'') names | names.
      names \<noteq> [] \<and> (False \<or> length names = 1) \<and> entry_at (Dir demo_tree) names \<and>
      (\<exists>ext \<in> {''.png'', ''.jpg'', ''.jpeg'', ''.pdf'', ''.tiff''}.
         endswith (if os_name demo_libs_nt = ''nt'' then win_casefold demo_libs_nt (last names)
                   else last names) ext)}"
    by blast
  then have sn: "{foldl (path_join demo_libs_nt) (str_Path demo_libs_nt ''scans'') names | names.
      names \<noteq> [] \<and> (False \<or> length names = 1) \<and> entry_at (Dir demo_tree) names \<and>
      (\<exists>ext \<in> {''.png'', ''.jpg'', ''.jpeg'', ''.pdf'', ''.tiff''}.
         endswith (if os_name demo_libs_nt = ''nt'' then win_casefold demo_libs_nt (last names)
                   else last names) ext)}
     = {''scans'' @ backslash @ ''a.png'', ''scans'' @ backslash @ ''B.PNG'', ''scans'' @ backslash @ ''album.jpg''}"
    unfolding runn by simp
  from single n have "discover demo_libs demo_world (SinglePath ''scan.png'') True = [str_Path demo_libs ''scan.png'']"
    by blast
  then have one: "discover demo_libs demo_world (SinglePath ''scan.png'') True = [''scan.png'']"
    by (simp only: sp)
  from d o s dn on demo_nt_folds sn n one show ?thesis by blast
qed

subsection \<open>Temporary files\<close>

text \<open>
  Claim C6, at a PNG file, at a PDF file, and at a PDF file with an endpoint that
  answers 500, each processed with preprocessing in a world where neither temporary
  name exists beforehand. The claim has every temporary file removed when the call
  returns. The names that \<open>tempfile\<close> makes do not end in \<open>_preprocessed.jpg\<close> or
  \<open>_temp.jpg\<close>, which is what the clean-up of lines 106 to 108 looks for, and nothing
  removes the rendered page: after the call the preprocessed image is still on disk,
  and so is the page, on the path where the call fails as well.
\<close>

theorem temporary_files_left_behind:
  "files demo_world ''/tmp/tmpk3x9q2ab.jpg'' = None \<and>
   files demo_world ''/tmp/tmp0f_7hw1z.jpg'' = None \<and>
   snd (process_image demo_libs demo_self demo_world ''scan.png'' ''text'' True) = Inr (JStr ''[1]'') \<and>
   files (fst (process_image demo_libs demo_self demo_world ''scan.png'' ''text'' True))
     ''/tmp/tmpk3x9q2ab.jpg'' = Some ''PNG'' \<and>
   snd (process_image demo_libs demo_self demo_world ''doc.pdf'' ''text'' True) = Inr (JStr ''[1]'') \<and>
   files (fst (process_image demo_libs demo_self demo_world ''doc.pdf'' ''text'' True))
     ''/tmp/tmpk3x9q2ab.jpg'' = Some ''PDF'' \<and>
   files (fst (process_image demo_libs demo_self demo_world ''doc.pdf'' ''text'' True))
     ''/tmp/tmp0f_7hw1z.jpg'' = Some ''PDF'' \<and>
   snd (process_image demo_libs_500 demo_self demo_world ''doc.pdf'' ''text'' True)
     = Inr (JStr (msg_process_failed @ ''500 Server Error: Internal Server Error for url: '' @
                  ''http://localhost:11434/api/generate'')) \<and>
   files (fst (process_image demo_libs_500 demo_self demo_world ''doc.pdf'' ''text'' True))
     ''/tmp/tmpk3x9q2ab.jpg'' = Some ''PDF'' \<and>
   files (fst (process_image demo_libs_500 demo_self demo_world ''doc.pdf'' ''text'' True))
     ''/tmp/tmp0f_7hw1z.jpg'' = Some ''PDF''"
  by code_simp

end
